theory Spec2Isabelle
  imports Complex_Main "HOL-Library.Multiset"
begin

section \<open>Paper-trading ledger (trading\_journal.py)\<close>

text \<open>
  Prices, lot sizes and balances are Python floats in the source. Prices and the
  quantities derived from them are modelled as exact reals. The running balance is where
  rounding decides a claim: its addition is made explicit further down
  (\<open>close_trade_with\<close>), and \<open>close_trade\<close> itself is that operation in exact
  arithmetic. Timestamps (\<open>entry_time\<close>, \<open>exit_time\<close>),
  \<open>signal_info\<close> and \<open>notes\<close> are written once and never read by any operation; they
  are left out of the record.
\<close>

datatype direction = BUY | SELL

datatype status = OPEN | CLOSED

record trade =
  trade_id :: string
  pair :: string
  direction :: direction
  entry_price :: real
  lot_size :: real
  status :: status
  exit_price :: "real option"
  exit_reason :: "string option"
  pips :: real
  pnl :: real

record journal =
  trades :: "trade list"
  balance :: real
  trade_counter :: nat

subsection \<open>Trade identifiers: \<open>f"TR{self.trade_counter:04d}"\<close>\<close>

fun dec :: "nat \<Rightarrow> string" where
  "dec n = (if n < 10 then [char_of (48 + n)]
            else dec (n div 10) @ [char_of (48 + n mod 10)])"

declare dec.simps [simp del]

definition zfill4 :: "string \<Rightarrow> string" where
  "zfill4 s = replicate (4 - length s) (CHR ''0'') @ s"

definition mk_id :: "nat \<Rightarrow> string" where
  "mk_id n = ''TR'' @ zfill4 (dec n)"

text \<open>Reading a digit string back; used only to show that \<open>mk_id\<close> is injective.\<close>

definition digit_val :: "char \<Rightarrow> nat" where
  "digit_val c = of_char c - 48"

definition parse_dec :: "string \<Rightarrow> nat" where
  "parse_dec s = foldl (\<lambda>a c. 10 * a + digit_val c) 0 s"

subsection \<open>Python's \<open>round(x, ndigits)\<close>\<close>

definition round_half_even :: "real \<Rightarrow> int" where
  "round_half_even y =
     (let f = \<lfloor>y\<rfloor>; d = y - of_int f
      in if d < 1 / 2 then f else if d > 1 / 2 then f + 1
         else if even f then f else f + 1)"

definition py_round :: "real \<Rightarrow> nat \<Rightarrow> real" where
  "py_round x nd = of_int (round_half_even (x * 10 ^ nd)) / 10 ^ nd"

subsection \<open>Floating-point addition\<close>

text \<open>
  The balance is a Python float, an IEEE 754 double, and \<open>self.balance += trade['pnl']\<close>
  rounds. \<open>round_double x\<close> is the double nearest to \<open>x\<close>: 53 significant bits, a tie
  going to the even significand, the spacing staying at \<open>2 powr (- 1074)\<close> below the normal
  range. (Overflow to infinity is not modelled: no amount here comes near the largest
  double.) \<open>py_sum\<close> is Python's \<open>sum\<close>, which adds from the left starting at 0.
\<close>

definition round_double :: "real \<Rightarrow> real" where
  "round_double x =
     (if x = 0 then 0
      else let e = max \<lfloor>log 2 \<bar>x\<bar>\<rfloor> (- 1022);
               q = 2 powr (of_int e - 52)
           in of_int (round_half_even (x / q)) * q)"

definition fl_add :: "real \<Rightarrow> real \<Rightarrow> real" where
  "fl_add x y = round_double (x + y)"

definition py_sum :: "(real \<Rightarrow> real \<Rightarrow> real) \<Rightarrow> real list \<Rightarrow> real" where
  "py_sum add xs = foldl add 0 xs"

subsection \<open>TradingJournal\<close>

text \<open>
  \<open>__init__\<close> with no files on disk: \<open>self.trades\<close> is the dict \<open>{'trades': []}\<close>, whose
  \<open>len\<close> is 1 (one key), so the counter starts at 2.
\<close>

definition init_journal :: "real \<Rightarrow> journal" where
  "init_journal b = \<lparr>trades = [], balance = b, trade_counter = 2\<rparr>"

text \<open>
  \<open>__init__\<close> in general. The journal file, when present and readable, gives the stored
  trades and the number of keys of the stored dict (1 when this class wrote it, 2 when the
  web application did, which stores \<open>next_id\<close> beside \<open>trades\<close>); the balance file gives the
  stored balance. The counter is the number of keys plus 1 whatever the stored trades are,
  so after a restart ids are issued again from TR0002 or TR0003.
\<close>

definition new_journal :: "(trade list \<times> nat) option \<Rightarrow> real option \<Rightarrow> real \<Rightarrow> journal" where
  "new_journal journal_file balance_file default_balance =
     \<lparr>trades = (case journal_file of None \<Rightarrow> [] | Some (ts, n_keys) \<Rightarrow> ts),
      balance = (case balance_file of None \<Rightarrow> default_balance | Some b \<Rightarrow> b),
      trade_counter = (case journal_file of None \<Rightarrow> 1 | Some (ts, n_keys) \<Rightarrow> n_keys) + 1\<rparr>"

definition open_trade :: "journal \<Rightarrow> string \<Rightarrow> direction \<Rightarrow> real \<Rightarrow> real \<Rightarrow> journal \<times> string" where
  "open_trade j p d entry lot =
     (let tid = mk_id (trade_counter j);
          t = \<lparr>trade_id = tid, pair = p, direction = d, entry_price = entry,
               lot_size = lot, status = OPEN, exit_price = None, exit_reason = None,
               pips = 0, pnl = 0\<rparr>
      in (j\<lparr>trade_counter := trade_counter j + 1, trades := trades j @ [t]\<rparr>, tid))"

definition close_fields :: "trade \<Rightarrow> real \<Rightarrow> string \<Rightarrow> trade" where
  "close_fields t exit_p reason =
     (let pp = (if direction t = BUY
                then py_round ((exit_p - entry_price t) * 10000) 1
                else py_round ((entry_price t - exit_p) * 10000) 1);
          pl = py_round (pp * lot_size t * 10) 2
      in t\<lparr>exit_price := Some exit_p, exit_reason := Some reason, status := CLOSED,
           pips := pp, pnl := pl\<rparr>)"

text \<open>
  The loop of \<open>close_trade\<close>: the first trade with the given id and status OPEN is
  closed in place and returned; \<open>None\<close> when the loop falls through.
\<close>

fun close_first :: "string \<Rightarrow> real \<Rightarrow> string \<Rightarrow> trade list \<Rightarrow> (trade list \<times> trade) option" where
  "close_first tid exit_p reason [] = None"
| "close_first tid exit_p reason (t # ts) =
     (if trade_id t = tid \<and> status t = OPEN
      then Some (close_fields t exit_p reason # ts, close_fields t exit_p reason)
      else (case close_first tid exit_p reason ts of
              None \<Rightarrow> None
            | Some (ts', c) \<Rightarrow> Some (t # ts', c)))"

definition close_trade :: "journal \<Rightarrow> string \<Rightarrow> real \<Rightarrow> string \<Rightarrow> journal \<times> trade option" where
  "close_trade j tid exit_p reason =
     (case close_first tid exit_p reason (trades j) of
        None \<Rightarrow> (j, None)
      | Some (ts', c) \<Rightarrow> (j\<lparr>trades := ts', balance := balance j + pnl c\<rparr>, Some c))"

definition get_open_trades :: "journal \<Rightarrow> trade list" where
  "get_open_trades j = filter (\<lambda>t. status t = OPEN) (trades j)"

definition get_closed_trades :: "journal \<Rightarrow> trade list" where
  "get_closed_trades j = filter (\<lambda>t. status t = CLOSED) (trades j)"

definition reset :: "journal \<Rightarrow> real \<Rightarrow> journal" where
  "reset j new_balance = j\<lparr>trades := [], balance := new_balance\<rparr>"

text \<open>Sequences of ledger operations, for statements about every history.\<close>

datatype ledger_op =
    OpOpen string direction real real
  | OpClose string real string
  | OpReset real

fun apply_op :: "journal \<Rightarrow> ledger_op \<Rightarrow> journal" where
  "apply_op j (OpOpen p d entry lot) = fst (open_trade j p d entry lot)"
| "apply_op j (OpClose tid exit_p reason) = fst (close_trade j tid exit_p reason)"
| "apply_op j (OpReset b) = reset j b"

definition run_ops :: "journal \<Rightarrow> ledger_op list \<Rightarrow> journal" where
  "run_ops j ops = foldl apply_op j ops"

text \<open>The balance the invariant is measured from: the argument of the last reset, if any.\<close>

fun base_balance :: "real \<Rightarrow> ledger_op list \<Rightarrow> real" where
  "base_balance b [] = b"
| "base_balance b (OpReset b' # ops) = base_balance b' ops"
| "base_balance b (OpOpen p d entry lot # ops) = base_balance b ops"
| "base_balance b (OpClose tid exit_p reason # ops) = base_balance b ops"

definition closed_pnl :: "journal \<Rightarrow> real" where
  "closed_pnl j = sum_list (map pnl (get_closed_trades j))"

text \<open>
  The same operations with the addition of \<open>self.balance += trade['pnl']\<close> as a parameter:
  the code runs them with \<open>fl_add\<close>; with \<open>(+)\<close> they are the operations above, in exact
  arithmetic. \<open>pnl_log\<close> collects, in the order of closing, the \<open>pnl\<close> of the trades
  closed since the last reset.
\<close>

definition close_trade_with ::
    "(real \<Rightarrow> real \<Rightarrow> real) \<Rightarrow> journal \<Rightarrow> string \<Rightarrow> real \<Rightarrow> string \<Rightarrow> journal \<times> trade option" where
  "close_trade_with add j tid exit_p reason =
     (case close_first tid exit_p reason (trades j) of
        None \<Rightarrow> (j, None)
      | Some (ts', c) \<Rightarrow> (j\<lparr>trades := ts', balance := add (balance j) (pnl c)\<rparr>, Some c))"

fun apply_op_with :: "(real \<Rightarrow> real \<Rightarrow> real) \<Rightarrow> journal \<Rightarrow> ledger_op \<Rightarrow> journal" where
  "apply_op_with add j (OpOpen p d entry lot) = fst (open_trade j p d entry lot)"
| "apply_op_with add j (OpClose tid exit_p reason) = fst (close_trade_with add j tid exit_p reason)"
| "apply_op_with add j (OpReset b) = reset j b"

definition run_ops_with :: "(real \<Rightarrow> real \<Rightarrow> real) \<Rightarrow> journal \<Rightarrow> ledger_op list \<Rightarrow> journal" where
  "run_ops_with add j ops = foldl (apply_op_with add) j ops"

fun pnl_log :: "(real \<Rightarrow> real \<Rightarrow> real) \<Rightarrow> journal \<Rightarrow> real list \<Rightarrow> ledger_op list \<Rightarrow> real list" where
  "pnl_log add j acc [] = acc"
| "pnl_log add j acc (OpOpen p d entry lot # ops) =
     pnl_log add (fst (open_trade j p d entry lot)) acc ops"
| "pnl_log add j acc (OpClose tid exit_p reason # ops) =
     (case close_trade_with add j tid exit_p reason of
        (j', None) \<Rightarrow> pnl_log add j' acc ops
      | (j', Some c) \<Rightarrow> pnl_log add j' (acc @ [pnl c]) ops)"
| "pnl_log add j acc (OpReset b # ops) = pnl_log add (reset j b) [] ops"

subsection \<open>VirtualTrader.on\_signal\<close>

text \<open>
  \<open>pair_trades\<close> is a list built before any trade is closed; the loop reads only
  \<open>direction\<close> and \<open>id\<close> from it, which closing never changes, so the snapshot is exact.
  The signal is the string the scorer produced; any string other than BUY, SELL or HOLD
  falls through both branches.
\<close>

fun close_reversed :: "direction \<Rightarrow> real \<Rightarrow> trade list \<Rightarrow> journal \<Rightarrow> journal" where
  "close_reversed d price [] j = j"
| "close_reversed d price (t # ts) j =
     (if direction t = d
      then close_reversed d price ts (fst (close_trade j (trade_id t) price ''REVERSED''))
      else close_reversed d price ts j)"

definition on_signal :: "journal \<Rightarrow> string \<Rightarrow> string \<Rightarrow> real \<Rightarrow> journal \<times> string option" where
  "on_signal j p signal price =
     (if signal = ''HOLD'' then (j, None)
      else
        let open_trades = get_open_trades j;
            pair_trades = filter (\<lambda>t. pair t = p) open_trades
        in if signal = ''BUY'' then
             (let j1 = close_reversed SELL price pair_trades j
              in if \<not> list_ex (\<lambda>t. direction t = BUY) pair_trades
                 then (case open_trade j1 p BUY price 0.01 of (j2, tid) \<Rightarrow> (j2, Some tid))
                 else (j1, None))
           else if signal = ''SELL'' then
             (let j1 = close_reversed BUY price pair_trades j
              in if \<not> list_ex (\<lambda>t. direction t = SELL) pair_trades
                 then (case open_trade j1 p SELL price 0.01 of (j2, tid) \<Rightarrow> (j2, Some tid))
                 else (j1, None))
           else (j, None))"

fun apply_signal :: "journal \<Rightarrow> string \<times> string \<times> real \<Rightarrow> journal" where
  "apply_signal j (p, signal, price) = fst (on_signal j p signal price)"

definition run_signals :: "journal \<Rightarrow> (string \<times> string \<times> real) list \<Rightarrow> journal" where
  "run_signals j sigs = foldl apply_signal j sigs"

definition open_on :: "string \<Rightarrow> journal \<Rightarrow> trade list" where
  "open_on p j = filter (\<lambda>t. pair t = p) (get_open_trades j)"

section \<open>Technical analysis (analyzer.py)\<close>

text \<open>
  Prices are exact reals here as well. A pandas Series or DataFrame is a list (the
  index plays no role in the functions below); \<open>.iloc[k]\<close> with a negative \<open>k\<close> counts
  from the end and raises IndexError out of range.
\<close>

datatype py_error = IndexError | ValueError

definition iloc :: "'a list \<Rightarrow> int \<Rightarrow> py_error + 'a" where
  "iloc xs i =
     (let n = int (length xs); k = (if i < 0 then n + i else i)
      in if 0 \<le> k \<and> k < n then Inr (xs ! nat k) else Inl IndexError)"

definition bind_err :: "py_error + 'a \<Rightarrow> ('a \<Rightarrow> py_error + 'b) \<Rightarrow> py_error + 'b" where
  "bind_err m f = (case m of Inl e \<Rightarrow> Inl e | Inr x \<Rightarrow> f x)"

subsection \<open>Trend\<close>

text \<open>
  \<open>close.ewm(span=period, adjust=False).mean()\<close>: the first value seeds the average,
  every later one is \<open>(1 - \<alpha>) * previous + \<alpha> * x\<close> with \<open>\<alpha> = 2 / (period + 1)\<close>.
\<close>

fun ewm_from :: "real \<Rightarrow> real \<Rightarrow> real list \<Rightarrow> real list" where
  "ewm_from a y [] = []"
| "ewm_from a y (x # xs) = ((1 - a) * y + a * x) # ewm_from a ((1 - a) * y + a * x) xs"

fun ewm_mean :: "real \<Rightarrow> real list \<Rightarrow> real list" where
  "ewm_mean a [] = []"
| "ewm_mean a (x # xs) = x # ewm_from a x xs"

text \<open>\<open>ewm\<close> raises ValueError unless \<open>span \<ge> 1\<close>; the periods are Python ints.\<close>

definition calculate_ema :: "real list \<Rightarrow> int \<Rightarrow> py_error + real list" where
  "calculate_ema close period =
     (if period < 1 then Inl ValueError
      else Inr (ewm_mean (2 / (of_int period + 1)) close))"

datatype trend =
  STRONG_UPTREND | WEAK_UPTREND | STRONG_DOWNTREND | WEAK_DOWNTREND | RANGE_BOUND

definition get_trend :: "real list \<Rightarrow> int \<Rightarrow> int \<Rightarrow> int \<Rightarrow> py_error + trend" where
  "get_trend close ema_fast ema_slow ema_trend =
     bind_err (calculate_ema close ema_fast) (\<lambda>ema_20.
     bind_err (calculate_ema close ema_slow) (\<lambda>ema_50.
     bind_err (if length close \<ge> 200 then calculate_ema close ema_trend else Inr ema_50)
       (\<lambda>ema_200.
     bind_err (iloc close (- 1)) (\<lambda>current_price.
     bind_err (iloc ema_200 (- 1)) (\<lambda>e200.
     bind_err (iloc ema_50 (- 1)) (\<lambda>e50.
       Inr (if current_price > e200 \<and> e50 > e200 then STRONG_UPTREND
            else if current_price > e200 then WEAK_UPTREND
            else if current_price < e200 \<and> e50 < e200 then STRONG_DOWNTREND
            else if current_price < e200 then WEAK_DOWNTREND
            else RANGE_BOUND)))))))"

text \<open>
  The decision table as the specification words it: an ordered list of rules, the first
  rule whose condition holds gives the result, RANGE\_BOUND when none does.
\<close>

fun first_match :: "(bool \<times> 'a) list \<Rightarrow> 'a \<Rightarrow> 'a" where
  "first_match [] d = d"
| "first_match ((c, r) # rs) d = (if c then r else first_match rs d)"

definition spec_trend_rules :: "real \<Rightarrow> real \<Rightarrow> real \<Rightarrow> (bool \<times> trend) list" where
  "spec_trend_rules price e_slow e_trend =
     [(price > e_trend \<and> e_slow > e_trend, STRONG_UPTREND),
      (price > e_trend, WEAK_UPTREND),
      (price < e_trend \<and> e_slow < e_trend, STRONG_DOWNTREND),
      (price < e_trend, WEAK_DOWNTREND)]"

text \<open>The EMA values themselves, for a period of at least 1.\<close>

definition ema_values :: "real list \<Rightarrow> int \<Rightarrow> real list" where
  "ema_values close period = ewm_mean (2 / (of_int period + 1)) close"

definition trend_ema :: "real list \<Rightarrow> int \<Rightarrow> int \<Rightarrow> real list" where
  "trend_ema close ema_slow ema_trend =
     (if length close \<ge> 200 then ema_values close ema_trend
      else ema_values close ema_slow)"

subsection \<open>Support and resistance: \<open>cluster_levels\<close>\<close>

text \<open>
  \<open>min\<close> and \<open>max\<close> of an empty list raise ValueError. The levels are numpy floats, for
  which a division by zero gives no exception; with \<open>num_clusters = 0\<close> the loop body
  never runs and \<open>step\<close> is never read. The bin bounds are computed here in exact
  arithmetic; in doubles \<open>min_p + i * step\<close> is rounded, so a statement about the bounds
  is made below only for an input on which every bound is exact in doubles as well.
\<close>

fun py_min :: "real list \<Rightarrow> py_error + real" where
  "py_min [] = Inl ValueError"
| "py_min (x # xs) = Inr (fold min xs x)"

fun py_max :: "real list \<Rightarrow> py_error + real" where
  "py_max [] = Inl ValueError"
| "py_max (x # xs) = Inr (fold max xs x)"

definition in_bin :: "real \<Rightarrow> real \<Rightarrow> nat \<Rightarrow> real \<Rightarrow> bool" where
  "in_bin min_p step i l = (min_p + real i * step \<le> l \<and> l < min_p + (real i + 1) * step)"

definition bin_levels :: "real list \<Rightarrow> real \<Rightarrow> real \<Rightarrow> nat \<Rightarrow> real list" where
  "bin_levels levels min_p step i = filter (in_bin min_p step i) levels"

definition cluster_levels :: "real list \<Rightarrow> nat \<Rightarrow> py_error + real list" where
  "cluster_levels levels num_clusters =
     (if length levels < num_clusters then Inr (sort levels)
      else
        bind_err (py_min levels) (\<lambda>min_p.
        bind_err (py_max levels) (\<lambda>max_p.
          let step = (max_p - min_p) / real num_clusters;
              clustered = concat (map (\<lambda>i.
                  let bl = bin_levels levels min_p step i
                  in if bl \<noteq> [] then [sum_list bl / real (length bl)] else [])
                [0..<num_clusters])
          in Inr (sort clustered))))"

subsection \<open>Candlestick patterns\<close>

record bar =
  bar_open :: real
  bar_high :: real
  bar_low :: real
  bar_close :: real

datatype pattern =
    DOJI | BULLISH_HAMMER | INVERTED_HAMMER | SHOOTING_STAR
  | BULLISH_ENGULFING | BEARISH_ENGULFING | MORNING_STAR | EVENING_STAR
  | THREE_WHITE_SOLDIERS | NONE

text \<open>
  Python's \<open>all\<close> over a generator: the elements are evaluated one by one, an exception
  in one of them propagates, and the first false element ends the evaluation.
\<close>

fun all_err :: "(py_error + bool) list \<Rightarrow> py_error + bool" where
  "all_err [] = Inr True"
| "all_err (x # xs) =
     (case x of Inl e \<Rightarrow> Inl e | Inr b \<Rightarrow> if b then all_err xs else Inr False)"

text \<open>
  The checks on the last bar and on the last two bars, in the order the source appends
  them. (\<open>body_size\<close>, the body floored at 0.0001, is computed by the source and never
  used: every comparison reads \<open>body\<close>.)
\<close>

definition single_patterns :: "bar \<Rightarrow> pattern list" where
  "single_patterns b =
     (let opn = bar_open b; h = bar_high b; l = bar_low b; c = bar_close b;
          body = \<bar>c - opn\<bar>;
          upper_shadow = h - max opn c;
          lower_shadow = min opn c - l
      in (if upper_shadow > body * 3 \<and> lower_shadow > body * 3 then [DOJI] else [])
       @ (if lower_shadow > body * 2 \<and> upper_shadow < body * 0.5 \<and> c > opn
          then [BULLISH_HAMMER] else [])
       @ (if upper_shadow > body * 2 \<and> lower_shadow < body * 0.5 \<and> c > opn
          then [INVERTED_HAMMER] else [])
       @ (if upper_shadow > body * 2 \<and> lower_shadow < body * 0.5 \<and> c < opn
          then [SHOOTING_STAR] else []))"

definition engulfing_patterns :: "bar \<Rightarrow> bar \<Rightarrow> pattern list" where
  "engulfing_patterns b pb =
     (let opn = bar_open b; c = bar_close b; po = bar_open pb; pc = bar_close pb
      in (if c > opn \<and> pc < po \<and> c > po \<and> opn < pc then [BULLISH_ENGULFING] else [])
       @ (if c < opn \<and> pc > po \<and> c < po \<and> opn > pc then [BEARISH_ENGULFING] else []))"

definition morning_star :: "bar list \<Rightarrow> bar \<Rightarrow> py_error + pattern list" where
  "morning_star data b =
     (if length data \<ge> 3 then
        bind_err (iloc data (- 3)) (\<lambda>b1.
        bind_err (iloc data (- 2)) (\<lambda>b2.
          let c1 = bar_close b1; o1 = bar_open b1; c2 = bar_close b2; o2 = bar_open b2;
              opn = bar_open b; c = bar_close b
          in Inr (if c1 < o1 \<and> \<bar>c2 - o2\<bar> < \<bar>c1 - o1\<bar> * 0.3 \<and> c > opn \<and> c > (o1 + c1) / 2
                  then [MORNING_STAR] else [])))
      else Inr [])"

definition evening_star :: "bar list \<Rightarrow> bar \<Rightarrow> py_error + pattern list" where
  "evening_star data b =
     (if length data \<ge> 3 then
        bind_err (iloc data (- 3)) (\<lambda>b1.
        bind_err (iloc data (- 2)) (\<lambda>b2.
          let c1 = bar_close b1; o1 = bar_open b1; c2 = bar_close b2; o2 = bar_open b2;
              opn = bar_open b; c = bar_close b
          in Inr (if c1 > o1 \<and> \<bar>c2 - o2\<bar> < \<bar>c1 - o1\<bar> * 0.3 \<and> c < opn \<and> c < (o1 + c1) / 2
                  then [EVENING_STAR] else [])))
      else Inr [])"

definition bullish_at :: "bar list \<Rightarrow> int \<Rightarrow> py_error + bool" where
  "bullish_at data k =
     bind_err (iloc (map bar_close data) k) (\<lambda>c.
     bind_err (iloc (map bar_open data) k) (\<lambda>opn. Inr (c > opn)))"

definition closes_higher_at :: "bar list \<Rightarrow> int \<Rightarrow> int \<Rightarrow> py_error + bool" where
  "closes_higher_at data k k' =
     bind_err (iloc (map bar_close data) k) (\<lambda>c.
     bind_err (iloc (map bar_close data) k') (\<lambda>c'. Inr (c > c')))"

definition three_white_soldiers :: "bar list \<Rightarrow> py_error + pattern list" where
  "three_white_soldiers data =
     (if length data \<ge> 3 then
        bind_err (all_err (map (\<lambda>i. bullish_at data (- 3 + int i)) [0..<3])) (\<lambda>a1.
          if a1 then
            bind_err (all_err (map (\<lambda>i. closes_higher_at data (- 3 + int i) (- 4 + int i))
                                  [0..<3])) (\<lambda>a2.
              Inr (if a2 then [THREE_WHITE_SOLDIERS] else []))
          else Inr [])
      else Inr [])"

definition get_candle_patterns :: "bar list \<Rightarrow> py_error + pattern" where
  "get_candle_patterns data =
     bind_err (iloc data (- 1)) (\<lambda>b.
     bind_err (iloc data (- 2)) (\<lambda>pb.
     bind_err (morning_star data b) (\<lambda>ms.
     bind_err (evening_star data b) (\<lambda>es.
     bind_err (three_white_soldiers data) (\<lambda>tws.
       let patterns = single_patterns b @ engulfing_patterns b pb @ ms @ es @ tws
       in Inr (case patterns of [] \<Rightarrow> NONE | p # _ \<Rightarrow> p))))))"

text \<open>
  The priority order of the specification, and the condition of each pattern standing
  alone, read off the source: \<open>from_end data k\<close> is the bar \<open>.iloc[-k]\<close>.
\<close>

definition priority :: "pattern list" where
  "priority = [DOJI, BULLISH_HAMMER, INVERTED_HAMMER, SHOOTING_STAR, BULLISH_ENGULFING,
               BEARISH_ENGULFING, MORNING_STAR, EVENING_STAR, THREE_WHITE_SOLDIERS]"

definition from_end :: "'a list \<Rightarrow> nat \<Rightarrow> 'a" where
  "from_end xs k = xs ! (length xs - k)"

definition bullish :: "bar \<Rightarrow> bool" where
  "bullish b = (bar_close b > bar_open b)"

definition bearish :: "bar \<Rightarrow> bool" where
  "bearish b = (bar_close b < bar_open b)"

definition body :: "bar \<Rightarrow> real" where
  "body b = \<bar>bar_close b - bar_open b\<bar>"

definition upper_shadow :: "bar \<Rightarrow> real" where
  "upper_shadow b = bar_high b - max (bar_open b) (bar_close b)"

definition lower_shadow :: "bar \<Rightarrow> real" where
  "lower_shadow b = min (bar_open b) (bar_close b) - bar_low b"

fun pattern_cond :: "bar list \<Rightarrow> pattern \<Rightarrow> bool" where
  "pattern_cond data DOJI =
     (let b = from_end data 1
      in upper_shadow b > body b * 3 \<and> lower_shadow b > body b * 3)"
| "pattern_cond data BULLISH_HAMMER =
     (let b = from_end data 1
      in lower_shadow b > body b * 2 \<and> upper_shadow b < body b * 0.5 \<and> bullish b)"
| "pattern_cond data INVERTED_HAMMER =
     (let b = from_end data 1
      in upper_shadow b > body b * 2 \<and> lower_shadow b < body b * 0.5 \<and> bullish b)"
| "pattern_cond data SHOOTING_STAR =
     (let b = from_end data 1
      in upper_shadow b > body b * 2 \<and> lower_shadow b < body b * 0.5 \<and> bearish b)"
| "pattern_cond data BULLISH_ENGULFING =
     (let b = from_end data 1; pb = from_end data 2
      in bullish b \<and> bearish pb \<and> bar_close b > bar_open pb \<and> bar_open b < bar_close pb)"
| "pattern_cond data BEARISH_ENGULFING =
     (let b = from_end data 1; pb = from_end data 2
      in bearish b \<and> bullish pb \<and> bar_close b < bar_open pb \<and> bar_open b > bar_close pb)"
| "pattern_cond data MORNING_STAR =
     (length data \<ge> 3 \<and>
      (let b = from_end data 1; b2 = from_end data 2; b1 = from_end data 3
       in bearish b1 \<and> body b2 < body b1 * 0.3 \<and> bullish b
          \<and> bar_close b > (bar_open b1 + bar_close b1) / 2))"
| "pattern_cond data EVENING_STAR =
     (length data \<ge> 3 \<and>
      (let b = from_end data 1; b2 = from_end data 2; b1 = from_end data 3
       in bullish b1 \<and> body b2 < body b1 * 0.3 \<and> bearish b
          \<and> bar_close b < (bar_open b1 + bar_close b1) / 2))"
| "pattern_cond data THREE_WHITE_SOLDIERS =
     (length data \<ge> 3 \<and>
      bullish (from_end data 3) \<and> bullish (from_end data 2) \<and> bullish (from_end data 1) \<and>
      bar_close (from_end data 3) > bar_close (from_end data 4) \<and>
      bar_close (from_end data 2) > bar_close (from_end data 3) \<and>
      bar_close (from_end data 1) > bar_close (from_end data 2))"
| "pattern_cond data NONE = False"

definition first_bullish3 :: "bar list \<Rightarrow> py_error + bool" where
  "first_bullish3 data = all_err (map (\<lambda>i. bullish_at data (- 3 + int i)) [0..<3])"

subsection \<open>Momentum: \<open>calculate_rsi\<close>\<close>

text \<open>
  The results of the rolling means and of the divisions are IEEE values: a finite number
  (an exact real in this model), an infinity or NaN. Zero is unsigned here; the sign of a
  zero divisor only chooses between the two infinities, and
  \<open>100 - 100 / (1 + rs)\<close> is 100 for either.
\<close>

datatype fval = Fin real | PInf | NInf | NaN

fun fneg :: "fval \<Rightarrow> fval" where
  "fneg (Fin a) = Fin (- a)"
| "fneg PInf = NInf"
| "fneg NInf = PInf"
| "fneg NaN = NaN"

fun fadd :: "fval \<Rightarrow> fval \<Rightarrow> fval" where
  "fadd NaN y = NaN"
| "fadd x NaN = NaN"
| "fadd (Fin a) (Fin b) = Fin (a + b)"
| "fadd PInf NInf = NaN"
| "fadd NInf PInf = NaN"
| "fadd PInf y = PInf"
| "fadd x PInf = PInf"
| "fadd NInf y = NInf"
| "fadd x NInf = NInf"

definition fsub :: "fval \<Rightarrow> fval \<Rightarrow> fval" where
  "fsub x y = fadd x (fneg y)"

fun fdiv :: "fval \<Rightarrow> fval \<Rightarrow> fval" where
  "fdiv NaN y = NaN"
| "fdiv x NaN = NaN"
| "fdiv (Fin a) (Fin b) =
     (if b = 0 then (if a = 0 then NaN else if a > 0 then PInf else NInf)
      else Fin (a / b))"
| "fdiv (Fin a) y = Fin 0"
| "fdiv PInf (Fin b) = (if b \<ge> 0 then PInf else NInf)"
| "fdiv NInf (Fin b) = (if b \<ge> 0 then NInf else PInf)"
| "fdiv x y = NaN"

text \<open>\<open>close.diff()\<close>: the first entry is NaN (\<open>None\<close> here), then the successive differences.\<close>

fun diffs :: "real list \<Rightarrow> real list" where
  "diffs (x # y # ys) = (y - x) # diffs (y # ys)"
| "diffs xs = []"

fun diff :: "real list \<Rightarrow> real option list" where
  "diff [] = []"
| "diff (x # xs) = None # map Some (diffs (x # xs))"

text \<open>
  \<open>delta.where(delta > 0, 0)\<close> keeps an entry where the comparison is true and puts 0
  elsewhere; a comparison with NaN is false.
\<close>

definition where_gt0 :: "real option \<Rightarrow> real" where
  "where_gt0 d = (case d of None \<Rightarrow> 0 | Some x \<Rightarrow> if x > 0 then x else 0)"

definition where_lt0 :: "real option \<Rightarrow> real" where
  "where_lt0 d = (case d of None \<Rightarrow> 0 | Some x \<Rightarrow> if x < 0 then x else 0)"

text \<open>
  \<open>rolling(window=w).mean()\<close> on a series without NaN: NaN until \<open>w\<close> values are
  available, then the mean of the last \<open>w\<close> values. (A window of 0 is not modelled; the
  statements below are about \<open>w \<ge> 1\<close>.)
\<close>

definition rolling_mean :: "real list \<Rightarrow> nat \<Rightarrow> fval list" where
  "rolling_mean xs w =
     map (\<lambda>i. if i + 1 < w then NaN
              else Fin (sum_list (take w (drop (i + 1 - w) xs)) / real w))
         [0..<length xs]"

definition calculate_rsi :: "real list \<Rightarrow> nat \<Rightarrow> fval" where
  "calculate_rsi close period =
     (let delta = diff close;
          gain = rolling_mean (map where_gt0 delta) period;
          loss = rolling_mean (map (\<lambda>d. - where_lt0 d) delta) period;
          rs = map2 fdiv gain loss;
          rsi = map (\<lambda>r. fsub (Fin 100) (fdiv (Fin 100) (fadd (Fin 1) r))) rs
      in if rsi \<noteq> [] then last rsi else Fin 50)"

text \<open>The two rolling means at the last bar, for statements about them.\<close>

definition gain_mean :: "real list \<Rightarrow> nat \<Rightarrow> fval" where
  "gain_mean close period = last (rolling_mean (map where_gt0 (diff close)) period)"

definition loss_mean :: "real list \<Rightarrow> nat \<Rightarrow> fval" where
  "loss_mean close period = last (rolling_mean (map (\<lambda>d. - where_lt0 d) (diff close)) period)"

section \<open>Invariants used in the proofs\<close>

text \<open>
  Open trades carry pairwise different ids, all issued by the counter; every id in the
  ledger was issued by the counter; and (for the trader) every pair has at most one open
  trade. \<open>closed_list\<close> is the trade list that
  \<open>close_trade\<close> leaves behind.
\<close>

definition ids_ok :: "journal \<Rightarrow> bool" where
  "ids_ok j = (distinct (map trade_id (get_open_trades j)) \<and>
     (\<forall>t \<in> set (get_open_trades j). \<exists>k < trade_counter j. trade_id t = mk_id k))"

definition closed_list :: "string \<Rightarrow> real \<Rightarrow> string \<Rightarrow> trade list \<Rightarrow> trade list" where
  "closed_list tid x r ts = (case close_first tid x r ts of None \<Rightarrow> ts | Some (ts', c) \<Rightarrow> ts')"

definition issued_ids :: "journal \<Rightarrow> bool" where
  "issued_ids j = (\<forall>t \<in> set (trades j). \<exists>k < trade_counter j. trade_id t = mk_id k)"

definition one_per_pair :: "journal \<Rightarrow> bool" where
  "one_per_pair j = (ids_ok j \<and> (\<forall>q. length (open_on q j) \<le> 1))"

section \<open>Rounding to double precision: proofs\<close>

text \<open>
  For a number between two consecutive powers of two, \<open>round_double\<close> rounds to a multiple
  of the spacing of the doubles in that binade.
\<close>

lemma floor_log2_eq:
  assumes "2 powr of_int e \<le> x" "x < 2 powr (of_int e + 1)"
  shows "\<lfloor>log 2 x\<rfloor> = e"
proof -
  have "(0::real) < 2 powr of_int e" by simp
  with assms(1) have pos: "0 < x" by linarith
  have "of_int e \<le> log 2 x" using assms(1) pos by (simp add: le_log_iff)
  moreover have "log 2 x < of_int e + 1" using assms(2) pos by (simp add: log_less_iff)
  ultimately show ?thesis by (simp add: floor_eq_iff)
qed

lemma two_powr_nat: "(2::real) powr real k = 2 ^ k"
  by (simp add: powr_realpow)

lemma two_powr_neg_nat: "(2::real) powr (- real k) = 1 / 2 ^ k"
  by (simp only: powr_minus two_powr_nat inverse_eq_divide)

lemma round_double_big:
  assumes "2 ^ n \<le> \<bar>x\<bar>" "\<bar>x\<bar> < 2 ^ Suc n" "52 \<le> n"
  shows "round_double x = of_int (round_half_even (x / 2 ^ (n - 52))) * 2 ^ (n - 52)"
proof -
  have "2 powr of_int (int n) \<le> \<bar>x\<bar>" using assms(1) by (simp add: two_powr_nat)
  moreover have "(2::real) powr (of_int (int n) + 1) = 2 ^ Suc n"
    using two_powr_nat [of "Suc n"] by (simp add: add.commute)
  then have "\<bar>x\<bar> < 2 powr (of_int (int n) + 1)" using assms(2) by (simp only:)
  ultimately have e: "\<lfloor>log 2 \<bar>x\<bar>\<rfloor> = int n" by (rule floor_log2_eq)
  have x0: "x \<noteq> 0"
  proof
    assume "x = 0"
    with assms(1) have "(2::real) ^ n \<le> 0" by simp
    moreover have "(0::real) < 2 ^ n" by simp
    ultimately show False by linarith
  qed
  have m: "max (int n) (- 1022) = int n" by simp
  have "of_int (int n) - (52::real) = real (n - 52)" using assms(3) by simp
  then have q: "2 powr (of_int (int n) - 52) = (2::real) ^ (n - 52)"
    by (simp only: two_powr_nat)
  show ?thesis
    unfolding round_double_def Let_def e m q using x0 by (simp only: if_False)
qed

lemma round_double_small:
  assumes "2 ^ n \<le> \<bar>x\<bar>" "\<bar>x\<bar> < 2 ^ Suc n" "n \<le> 52"
  shows "round_double x = of_int (round_half_even (x / (1 / 2 ^ (52 - n)))) * (1 / 2 ^ (52 - n))"
proof -
  have "2 powr of_int (int n) \<le> \<bar>x\<bar>" using assms(1) by (simp add: two_powr_nat)
  moreover have "(2::real) powr (of_int (int n) + 1) = 2 ^ Suc n"
    using two_powr_nat [of "Suc n"] by (simp add: add.commute)
  then have "\<bar>x\<bar> < 2 powr (of_int (int n) + 1)" using assms(2) by (simp only:)
  ultimately have e: "\<lfloor>log 2 \<bar>x\<bar>\<rfloor> = int n" by (rule floor_log2_eq)
  have x0: "x \<noteq> 0"
  proof
    assume "x = 0"
    with assms(1) have "(2::real) ^ n \<le> 0" by simp
    moreover have "(0::real) < 2 ^ n" by simp
    ultimately show False by linarith
  qed
  have m: "max (int n) (- 1022) = int n" by simp
  have "of_int (int n) - (52::real) = - real (52 - n)" using assms(3) by simp
  then have q: "2 powr (of_int (int n) - 52) = 1 / (2::real) ^ (52 - n)"
    by (simp only: two_powr_neg_nat)
  show ?thesis
    unfolding round_double_def Let_def e m q using x0 by (simp only: if_False)
qed

lemma round_double_frac:
  assumes "1 / 2 ^ m \<le> \<bar>x\<bar>" "\<bar>x\<bar> < 1 / 2 ^ (m - 1)" "1 \<le> m" "m \<le> 1022"
  shows "round_double x = of_int (round_half_even (x / (1 / 2 ^ (52 + m)))) * (1 / 2 ^ (52 + m))"
proof -
  have "2 powr of_int (- int m) \<le> \<bar>x\<bar>"
    using assms(1) two_powr_neg_nat [of m] by simp
  moreover have "of_int (- int m) + (1::real) = - real (m - 1)" using assms(3) by simp
  then have "(2::real) powr (of_int (- int m) + 1) = 1 / 2 ^ (m - 1)"
    by (simp only: two_powr_neg_nat)
  then have "\<bar>x\<bar> < 2 powr (of_int (- int m) + 1)" using assms(2) by (simp only:)
  ultimately have e: "\<lfloor>log 2 \<bar>x\<bar>\<rfloor> = - int m" by (rule floor_log2_eq)
  have x0: "x \<noteq> 0"
  proof
    assume "x = 0"
    with assms(1) have "1 / (2::real) ^ m \<le> 0" by simp
    moreover have "(0::real) < 1 / 2 ^ m" by simp
    ultimately show False by linarith
  qed
  have m: "max (- int m) (- 1022) = - int m" using assms(4) by simp
  have "of_int (- int m) - (52::real) = - real (52 + m)" by simp
  then have q: "2 powr (of_int (- int m) - 52) = 1 / (2::real) ^ (52 + m)"
    by (simp only: two_powr_neg_nat)
  show ?thesis
    unfolding round_double_def Let_def e m q using x0 by (simp only: if_False)
qed

text \<open>The roundings met below.\<close>

lemma round_double_lost: "round_double 100000000000000006250 = 100000000000000000000"
proof -
  have "round_double 100000000000000006250
      = of_int (round_half_even (100000000000000006250 / 2 ^ (66 - 52))) * 2 ^ (66 - 52)"
    by (rule round_double_big) simp_all
  moreover have "round_half_even (100000000000000006250 / 2 ^ (66 - 52)) = 6103515625000000"
    by (simp add: round_half_even_def Let_def)
  ultimately show ?thesis by simp
qed

lemma round_double_kept: "round_double 100000000000000012500 = 100000000000000016384"
proof -
  have "round_double 100000000000000012500
      = of_int (round_half_even (100000000000000012500 / 2 ^ (66 - 52))) * 2 ^ (66 - 52)"
    by (rule round_double_big) simp_all
  moreover have "round_half_even (100000000000000012500 / 2 ^ (66 - 52)) = 6103515625000001"
    by (simp add: round_half_even_def Let_def)
  ultimately show ?thesis by simp
qed

lemma round_double_6250: "round_double 6250 = 6250"
proof -
  have "round_double 6250
      = of_int (round_half_even (6250 / (1 / 2 ^ (52 - 12)))) * (1 / 2 ^ (52 - 12))"
    by (rule round_double_small) simp_all
  moreover have "round_half_even (6250 / (1 / 2 ^ (52 - 12))) = 6871947673600000"
    by (simp add: round_half_even_def Let_def)
  ultimately show ?thesis by simp
qed

lemma round_double_12500: "round_double 12500 = 12500"
proof -
  have "round_double 12500
      = of_int (round_half_even (12500 / (1 / 2 ^ (52 - 13)))) * (1 / 2 ^ (52 - 13))"
    by (rule round_double_small) simp_all
  moreover have "round_half_even (12500 / (1 / 2 ^ (52 - 13))) = 6871947673600000"
    by (simp add: round_half_even_def Let_def)
  ultimately show ?thesis by simp
qed

lemma round_double_10005: "round_double 10005 = 10005"
proof -
  have "round_double 10005
      = of_int (round_half_even (10005 / (1 / 2 ^ (52 - 13)))) * (1 / 2 ^ (52 - 13))"
    by (rule round_double_small) simp_all
  moreover have "round_half_even (10005 / (1 / 2 ^ (52 - 13))) = 5500306917949440"
    by (simp add: round_half_even_def Let_def)
  ultimately show ?thesis by simp
qed

lemma rd_tenth: "round_double (1 / 10) = 3602879701896397 / 2 ^ 55"
proof -
  have "round_double (1 / 10) = of_int (round_half_even (1 / 10 / (1 / 2 ^ (52 + 4)))) * (1 / 2 ^ (52 + 4))"
    by (rule round_double_frac) simp_all
  moreover have "round_half_even (1 / 10 / (1 / 2 ^ (52 + 4))) = 7205759403792794"
    by (simp add: round_half_even_def Let_def)
  ultimately show ?thesis by simp
qed

lemma rd_bal1: "round_double (10000 + 3602879701896397 / 2 ^ 55) = 5497613114461389 / 2 ^ 39"
proof -
  have "round_double (10000 + 3602879701896397 / 2 ^ 55) = of_int (round_half_even ((10000 + 3602879701896397 / 2 ^ 55) / (1 / 2 ^ (52 - 13)))) * (1 / 2 ^ (52 - 13))"
    by (rule round_double_small) simp_all
  moreover have "round_half_even ((10000 + 3602879701896397 / 2 ^ 55) / (1 / 2 ^ (52 - 13))) = 5497613114461389"
    by (simp add: round_half_even_def Let_def)
  ultimately show ?thesis by simp
qed

lemma rd_bal2: "round_double (5497613114461389 / 2 ^ 39 + 3602879701896397 / 2 ^ 55) = 2748834045021389 / 2 ^ 38"
proof -
  have "round_double (5497613114461389 / 2 ^ 39 + 3602879701896397 / 2 ^ 55) = of_int (round_half_even ((5497613114461389 / 2 ^ 39 + 3602879701896397 / 2 ^ 55) / (1 / 2 ^ (52 - 13)))) * (1 / 2 ^ (52 - 13))"
    by (rule round_double_small) simp_all
  moreover have "round_half_even ((5497613114461389 / 2 ^ 39 + 3602879701896397 / 2 ^ 55) / (1 / 2 ^ (52 - 13))) = 5497668090042778"
    by (simp add: round_half_even_def Let_def)
  ultimately show ?thesis by simp
qed

lemma rd_bal3: "round_double (2748834045021389 / 2 ^ 38 + 3602879701896397 / 2 ^ 55) = 5497723065624167 / 2 ^ 39"
proof -
  have "round_double (2748834045021389 / 2 ^ 38 + 3602879701896397 / 2 ^ 55) = of_int (round_half_even ((2748834045021389 / 2 ^ 38 + 3602879701896397 / 2 ^ 55) / (1 / 2 ^ (52 - 13)))) * (1 / 2 ^ (52 - 13))"
    by (rule round_double_small) simp_all
  moreover have "round_half_even ((2748834045021389 / 2 ^ 38 + 3602879701896397 / 2 ^ 55) / (1 / 2 ^ (52 - 13))) = 5497723065624167"
    by (simp add: round_half_even_def Let_def)
  ultimately show ?thesis by simp
qed

lemma rd_sum2: "round_double (3602879701896397 / 2 ^ 55 + 3602879701896397 / 2 ^ 55) = 3602879701896397 / 2 ^ 54"
proof -
  have "round_double (3602879701896397 / 2 ^ 55 + 3602879701896397 / 2 ^ 55) = of_int (round_half_even ((3602879701896397 / 2 ^ 55 + 3602879701896397 / 2 ^ 55) / (1 / 2 ^ (52 + 3)))) * (1 / 2 ^ (52 + 3))"
    by (rule round_double_frac) simp_all
  moreover have "round_half_even ((3602879701896397 / 2 ^ 55 + 3602879701896397 / 2 ^ 55) / (1 / 2 ^ (52 + 3))) = 7205759403792794"
    by (simp add: round_half_even_def Let_def)
  ultimately show ?thesis by simp
qed

lemma rd_sum3: "round_double (3602879701896397 / 2 ^ 54 + 3602879701896397 / 2 ^ 55) = 1351079888211149 / 2 ^ 52"
proof -
  have "round_double (3602879701896397 / 2 ^ 54 + 3602879701896397 / 2 ^ 55) = of_int (round_half_even ((3602879701896397 / 2 ^ 54 + 3602879701896397 / 2 ^ 55) / (1 / 2 ^ (52 + 2)))) * (1 / 2 ^ (52 + 2))"
    by (rule round_double_frac) simp_all
  moreover have "round_half_even ((3602879701896397 / 2 ^ 54 + 3602879701896397 / 2 ^ 55) / (1 / 2 ^ (52 + 2))) = 5404319552844596"
    by (simp add: round_half_even_def Let_def)
  ultimately show ?thesis by simp
qed

lemma rd_total: "round_double (10000 + 1351079888211149 / 2 ^ 52) = 2748861532812083 / 2 ^ 38"
proof -
  have "round_double (10000 + 1351079888211149 / 2 ^ 52) = of_int (round_half_even ((10000 + 1351079888211149 / 2 ^ 52) / (1 / 2 ^ (52 - 13)))) * (1 / 2 ^ (52 - 13))"
    by (rule round_double_small) simp_all
  moreover have "round_half_even ((10000 + 1351079888211149 / 2 ^ 52) / (1 / 2 ^ (52 - 13))) = 5497723065624166"
    by (simp add: round_half_even_def Let_def)
  ultimately show ?thesis by simp
qed

lemma rd_tenth_idem: "round_double (3602879701896397 / 2 ^ 55) = 3602879701896397 / 2 ^ 55"
proof -
  have "round_double (3602879701896397 / 2 ^ 55) = of_int (round_half_even ((3602879701896397 / 2 ^ 55) / (1 / 2 ^ (52 + 4)))) * (1 / 2 ^ (52 + 4))"
    by (rule round_double_frac) simp_all
  moreover have "round_half_even ((3602879701896397 / 2 ^ 55) / (1 / 2 ^ (52 + 4))) = 7205759403792794"
    by (simp add: round_half_even_def Let_def)
  ultimately show ?thesis by simp
qed

text \<open>
  Adding the double nearest to 0.1 three times to 10000 gives 10000.300000000001, while
  10000 plus the sum of the three gives 10000.3: the running sum and the sum of the parts
  differ in the last place.
\<close>

lemma float_running_sum_differs:
  "foldl fl_add 10000 [round_double (1 / 10), round_double (1 / 10), round_double (1 / 10)]
     = 5497723065624167 / 2 ^ 39
   \<and> fl_add 10000 (py_sum fl_add [round_double (1 / 10), round_double (1 / 10), round_double (1 / 10)])
     = 2748861532812083 / 2 ^ 38"
  by (simp only: foldl.simps fl_add_def py_sum_def add_0 rd_tenth rd_tenth_idem
      rd_bal1 rd_bal2 rd_bal3 rd_sum2 rd_sum3 rd_total simp_thms)

section \<open>The ledger: proofs\<close>

lemma close_fields_status [simp]: "status (close_fields t x r) = CLOSED"
  by (simp add: close_fields_def Let_def)

lemma close_fields_keeps [simp]:
  "trade_id (close_fields t x r) = trade_id t"
  "pair (close_fields t x r) = pair t"
  "direction (close_fields t x r) = direction t"
  "exit_reason (close_fields t x r) = Some r"
  "exit_price (close_fields t x r) = Some x"
  by (simp_all add: close_fields_def Let_def)

lemma close_first_closed_pnl:
  "close_first tid x r ts = Some (ts', c) \<Longrightarrow>
   sum_list (map pnl (filter (\<lambda>t. status t = CLOSED) ts'))
     = sum_list (map pnl (filter (\<lambda>t. status t = CLOSED) ts)) + pnl c"
proof (induction ts arbitrary: ts')
  case Nil
  then show ?case by simp
next
  case (Cons t ts)
  show ?case
  proof (cases "trade_id t = tid \<and> status t = OPEN")
    case True
    with Cons.prems show ?thesis by auto
  next
    case False
    with Cons.prems obtain us where us: "close_first tid x r ts = Some (us, c)" "ts' = t # us"
      by (auto split: option.splits)
    from Cons.IH [OF us(1)] us(2) show ?thesis by simp
  qed
qed

lemma close_trade_inv:
  "balance j = b + closed_pnl j \<Longrightarrow>
   balance (fst (close_trade j tid x r)) = b + closed_pnl (fst (close_trade j tid x r))"
  by (auto simp: close_trade_def closed_pnl_def get_closed_trades_def
      split: option.splits dest: close_first_closed_pnl)

lemma open_trade_inv:
  "balance j = b + closed_pnl j \<Longrightarrow>
   balance (fst (open_trade j p d e l)) = b + closed_pnl (fst (open_trade j p d e l))"
  by (simp add: open_trade_def closed_pnl_def get_closed_trades_def Let_def)

lemma reset_inv: "balance (reset j nb) = nb + closed_pnl (reset j nb)"
  by (simp add: reset_def closed_pnl_def get_closed_trades_def)

lemma run_ops_inv:
  "balance j = b + closed_pnl j \<Longrightarrow>
   balance (run_ops j ops) = base_balance b ops + closed_pnl (run_ops j ops)"
proof (induction ops arbitrary: j b)
  case Nil
  then show ?case by (simp add: run_ops_def)
next
  case (Cons op ops)
  show ?case
  proof (cases op)
    case (OpOpen p d e l)
    from Cons.IH [OF open_trade_inv [OF Cons.prems]] OpOpen
    show ?thesis by (simp add: run_ops_def)
  next
    case (OpClose tid x r)
    from Cons.IH [OF close_trade_inv [OF Cons.prems]] OpClose
    show ?thesis by (simp add: run_ops_def)
  next
    case (OpReset nb)
    from Cons.IH [OF reset_inv] OpReset
    show ?thesis by (simp add: run_ops_def)
  qed
qed

lemma balance_changes_only:
  "balance (apply_op j op) \<noteq> balance j \<Longrightarrow>
     (\<exists>nb. op = OpReset nb) \<or>
     (\<exists>tid x r. op = OpClose tid x r \<and> snd (close_trade j tid x r) \<noteq> None)"
  by (cases op) (auto simp: open_trade_def Let_def close_trade_def split: option.splits)

subsection \<open>Trade identifiers are injective\<close>

lemma parse_dec_snoc: "parse_dec (s @ [c]) = 10 * parse_dec s + digit_val c"
  by (simp add: parse_dec_def)

lemma digit_val_char: "d < 10 \<Longrightarrow> digit_val (char_of (48 + d)) = d"
  by (simp add: digit_val_def)

lemma parse_dec_dec: "parse_dec (dec n) = n"
proof (induction n rule: dec.induct)
  case (1 n)
  show ?case
  proof (cases "n < 10")
    case True
    then show ?thesis
      by (subst dec.simps) (simp add: parse_dec_def digit_val_char)
  next
    case False
    with 1 have "parse_dec (dec (n div 10)) = n div 10" by simp
    with False show ?thesis
      by (subst dec.simps) (simp add: parse_dec_snoc digit_val_char)
  qed
qed

lemma parse_dec_zeros: "parse_dec (replicate k (CHR ''0'') @ s) = parse_dec s"
proof -
  have "foldl (\<lambda>a c. 10 * a + digit_val c) 0 (replicate k (CHR ''0'')) = 0"
    by (induction k) (simp_all add: digit_val_def)
  then show ?thesis by (simp add: parse_dec_def)
qed

lemma mk_id_inj: "mk_id a = mk_id b \<Longrightarrow> a = b"
proof -
  assume "mk_id a = mk_id b"
  then have "zfill4 (dec a) = zfill4 (dec b)" by (simp add: mk_id_def)
  then have "parse_dec (zfill4 (dec a)) = parse_dec (zfill4 (dec b))" by simp
  then show "a = b" by (simp add: zfill4_def parse_dec_zeros parse_dec_dec)
qed

subsection \<open>Opening and closing one trade\<close>



lemma py_round_pips: "py_round ((1.1050 - 1.1000) * 10000) 1 = 50"
  by (simp add: py_round_def round_half_even_def Let_def)

lemma py_round_pnl: "py_round (50 * 0.01 * 10) 2 = 5"
  by (simp add: py_round_def round_half_even_def Let_def)

lemma close_trade_counter [simp]:
  "trade_counter (fst (close_trade j tid x r)) = trade_counter j"
  by (simp add: close_trade_def split: option.splits)

lemma close_trade_trades:
  "trades (fst (close_trade j tid x r)) = closed_list tid x r (trades j)"
  by (simp add: close_trade_def closed_list_def split: option.splits)

lemma closed_list_Cons:
  "closed_list tid x r (t # ts) =
     (if trade_id t = tid \<and> status t = OPEN then close_fields t x r # ts
      else t # closed_list tid x r ts)"
  by (simp add: closed_list_def split: option.splits)

lemma closed_list_Nil [simp]: "closed_list tid x r [] = []"
  by (simp add: closed_list_def)

lemma length_closed_list [simp]: "length (closed_list tid x r ts) = length ts"
  by (induction ts) (simp_all add: closed_list_Cons)

lemma filter_id_absent:
  "tid \<notin> trade_id ` set us \<Longrightarrow> filter (\<lambda>t. trade_id t \<noteq> tid) us = us"
  by (induction us) auto

lemma open_after_closed_list:
  "distinct (map trade_id (filter (\<lambda>t. status t = OPEN) ts)) \<Longrightarrow>
   filter (\<lambda>t. status t = OPEN) (closed_list tid x r ts)
     = filter (\<lambda>t. trade_id t \<noteq> tid) (filter (\<lambda>t. status t = OPEN) ts)"
proof (induction ts)
  case Nil
  then show ?case by simp
next
  case (Cons t ts)
  show ?case
  proof (cases "trade_id t = tid \<and> status t = OPEN")
    case True
    with Cons.prems have "tid \<notin> trade_id ` set (filter (\<lambda>t. status t = OPEN) ts)"
      by auto
    from filter_id_absent [OF this] True show ?thesis
      by (simp add: closed_list_Cons)
  next
    case False
    from Cons.prems have "distinct (map trade_id (filter (\<lambda>t. status t = OPEN) ts))"
      by (simp split: if_splits)
    from Cons.IH [OF this] False show ?thesis
      by (auto simp: closed_list_Cons)
  qed
qed

lemma open_after_close_trade:
  "distinct (map trade_id (get_open_trades j)) \<Longrightarrow>
   get_open_trades (fst (close_trade j tid x r))
     = filter (\<lambda>t. trade_id t \<noteq> tid) (get_open_trades j)"
  by (simp add: get_open_trades_def close_trade_trades open_after_closed_list)

lemma close_reversed_counter [simp]:
  "trade_counter (close_reversed d price pts j) = trade_counter j"
  by (induction pts arbitrary: j) simp_all

lemma close_reversed_length [simp]:
  "length (trades (close_reversed d price pts j)) = length (trades j)"
  by (induction pts arbitrary: j) (simp_all add: close_trade_trades)

lemma open_after_close_reversed:
  "distinct (map trade_id (get_open_trades j)) \<Longrightarrow>
   get_open_trades (close_reversed d price pts j)
     = filter (\<lambda>t. trade_id t \<notin> trade_id ` {u \<in> set pts. direction u = d}) (get_open_trades j)"
proof (induction pts arbitrary: j)
  case Nil
  then show ?case by simp
next
  case (Cons u pts)
  show ?case
  proof (cases "direction u = d")
    case True
    let ?j1 = "fst (close_trade j (trade_id u) price ''REVERSED'')"
    have o1: "get_open_trades ?j1 = filter (\<lambda>t. trade_id t \<noteq> trade_id u) (get_open_trades j)"
      by (rule open_after_close_trade [OF Cons.prems])
    then have "distinct (map trade_id (get_open_trades ?j1))"
      using Cons.prems by (simp add: distinct_map_filter)
    from Cons.IH [OF this] o1 True show ?thesis
      by (auto intro!: filter_cong)
  next
    case False
    from Cons.IH [OF Cons.prems] False show ?thesis
      by (auto intro!: filter_cong)
  qed
qed

lemma open_after_reversal:
  assumes "distinct (map trade_id (get_open_trades j))"
  shows "get_open_trades (close_reversed d price (open_on p j) j)
           = filter (\<lambda>t. \<not> (pair t = p \<and> direction t = d)) (get_open_trades j)"
proof -
  have inj: "inj_on trade_id (set (get_open_trades j))"
    using assms by (simp add: distinct_map)
  have "\<And>t. t \<in> set (get_open_trades j) \<Longrightarrow>
      (trade_id t \<notin> trade_id ` {u \<in> set (open_on p j). direction u = d})
        = (\<not> (pair t = p \<and> direction t = d))"
  proof -
    fix t assume t: "t \<in> set (get_open_trades j)"
    show "(trade_id t \<notin> trade_id ` {u \<in> set (open_on p j). direction u = d})
        = (\<not> (pair t = p \<and> direction t = d))"
    proof
      assume "trade_id t \<notin> trade_id ` {u \<in> set (open_on p j). direction u = d}"
      then have "t \<notin> {u \<in> set (open_on p j). direction u = d}" by blast
      with t show "\<not> (pair t = p \<and> direction t = d)" by (simp add: open_on_def)
    next
      assume n: "\<not> (pair t = p \<and> direction t = d)"
      show "trade_id t \<notin> trade_id ` {u \<in> set (open_on p j). direction u = d}"
      proof
        assume "trade_id t \<in> trade_id ` {u \<in> set (open_on p j). direction u = d}"
        then obtain u where u: "u \<in> set (open_on p j)" "direction u = d" "trade_id t = trade_id u"
          by blast
        then have "u \<in> set (get_open_trades j)" by (simp add: open_on_def)
        with inj t u(3) have "t = u" by (auto dest: inj_onD)
        with u n show False by (simp add: open_on_def)
      qed
    qed
  qed
  then show ?thesis
    by (simp add: open_after_close_reversed [OF assms] cong: filter_cong)
qed

lemma get_open_open_trade:
  "get_open_trades (fst (open_trade j p d e l)) =
     get_open_trades j @ [\<lparr>trade_id = mk_id (trade_counter j), pair = p, direction = d,
       entry_price = e, lot_size = l, status = OPEN, exit_price = None, exit_reason = None,
       pips = 0, pnl = 0\<rparr>]"
  by (simp add: open_trade_def get_open_trades_def Let_def)

lemma ids_ok_close_reversed:
  assumes "ids_ok j"
  shows "ids_ok (close_reversed d price (open_on p j) j)"
  using assms unfolding ids_ok_def
  by (simp add: open_after_reversal distinct_map_filter)

lemma ids_ok_filtered_open:
  assumes "ids_ok j1"
  shows "ids_ok (fst (open_trade j1 p d e l))"
proof -
  have fresh: "mk_id (trade_counter j1) \<notin> trade_id ` set (get_open_trades j1)"
  proof
    assume "mk_id (trade_counter j1) \<in> trade_id ` set (get_open_trades j1)"
    then obtain t where "t \<in> set (get_open_trades j1)" "trade_id t = mk_id (trade_counter j1)"
      by auto
    with assms obtain k where "k < trade_counter j1" "mk_id k = mk_id (trade_counter j1)"
      unfolding ids_ok_def by metis
    then show False using mk_id_inj by blast
  qed
  have c: "trade_counter (fst (open_trade j1 p d e l)) = Suc (trade_counter j1)"
    by (simp add: open_trade_def Let_def)
  show ?thesis
    using assms fresh unfolding ids_ok_def get_open_open_trade c
    by (auto simp: less_Suc_eq)
qed

lemma open_on_close_reversed:
  "ids_ok j \<Longrightarrow>
   open_on q (close_reversed d price (open_on p j) j)
     = filter (\<lambda>t. pair t = p \<longrightarrow> direction t \<noteq> d) (open_on q j)"
proof -
  assume "ids_ok j"
  then have dist: "distinct (map trade_id (get_open_trades j))" by (simp add: ids_ok_def)
  have "open_on q (close_reversed d price (open_on p j) j)
      = filter (\<lambda>t. pair t = q)
          (filter (\<lambda>t. \<not> (pair t = p \<and> direction t = d)) (get_open_trades j))"
    by (simp only: open_on_def [of q] open_after_reversal [OF dist])
  also have "\<dots> = filter (\<lambda>t. pair t = p \<longrightarrow> direction t \<noteq> d) (open_on q j)"
    by (auto simp: open_on_def intro!: filter_cong)
  finally show ?thesis .
qed

lemma open_on_open_trade:
  "open_on q (fst (open_trade j p d e l)) =
     open_on q j @ (if p = q then [\<lparr>trade_id = mk_id (trade_counter j), pair = p,
       direction = d, entry_price = e, lot_size = l, status = OPEN, exit_price = None,
       exit_reason = None, pips = 0, pnl = 0\<rparr>] else [])"
  by (simp add: open_on_def get_open_open_trade)

lemma none_left:
  assumes "\<not> list_ex (\<lambda>t. direction t = d') (open_on p j)" "d \<noteq> d'"
  shows "filter (\<lambda>t. pair t = p \<longrightarrow> direction t \<noteq> d) (open_on p j) = []"
proof -
  have "\<And>t. t \<in> set (open_on p j) \<Longrightarrow> pair t = p \<and> direction t = d"
  proof -
    fix t assume t: "t \<in> set (open_on p j)"
    then have "direction t \<noteq> d'" using assms(1) by (auto simp: list_ex_iff)
    with assms(2) have "direction t = d" by (cases "direction t"; cases d; cases d') auto
    with t show "pair t = p \<and> direction t = d" by (simp add: open_on_def)
  qed
  then show ?thesis unfolding filter_empty_conv by blast
qed

lemma step_close_inv:
  assumes "one_per_pair j"
  shows "one_per_pair (close_reversed d price (open_on p j) j)"
proof -
  from assms have ok: "ids_ok j" and le: "\<And>q. length (open_on q j) \<le> 1"
    by (simp_all add: one_per_pair_def)
  have "\<And>q. length (open_on q (close_reversed d price (open_on p j) j)) \<le> 1"
  proof -
    fix q
    have "length (filter (\<lambda>t. pair t = p \<longrightarrow> direction t \<noteq> d) (open_on q j))
            \<le> length (open_on q j)" by (rule length_filter_le)
    also note le [of q]
    finally show "length (open_on q (close_reversed d price (open_on p j) j)) \<le> 1"
      by (simp only: open_on_close_reversed [OF ok])
  qed
  with ids_ok_close_reversed [OF ok] show ?thesis by (simp add: one_per_pair_def)
qed

lemma step_open_inv:
  assumes "one_per_pair j" "\<not> list_ex (\<lambda>t. direction t = d') (open_on p j)" "d \<noteq> d'"
  shows "one_per_pair (fst (open_trade (close_reversed d price (open_on p j) j) p d' e l))"
proof -
  let ?j1 = "close_reversed d price (open_on p j) j"
  from assms(1) have ok: "ids_ok j" by (simp add: one_per_pair_def)
  from step_close_inv [OF assms(1)] have j1: "ids_ok ?j1" "\<And>q. length (open_on q ?j1) \<le> 1"
    by (simp_all add: one_per_pair_def)
  have e: "open_on p ?j1 = []"
    by (simp add: open_on_close_reversed [OF ok] none_left [OF assms(2,3)])
  have "\<And>q. length (open_on q (fst (open_trade ?j1 p d' e l))) \<le> 1"
  proof -
    fix q
    show "length (open_on q (fst (open_trade ?j1 p d' e l))) \<le> 1"
      using e j1(2) [of q] by (cases "p = q") (simp_all add: open_on_open_trade)
  qed
  with ids_ok_filtered_open [OF j1(1)] show ?thesis by (simp add: one_per_pair_def)
qed

lemma on_signal_unfold:
  "on_signal j p signal price =
     (if signal = ''HOLD'' then (j, None)
      else if signal = ''BUY'' then
             (if \<not> list_ex (\<lambda>t. direction t = BUY) (open_on p j)
              then (fst (open_trade (close_reversed SELL price (open_on p j) j) p BUY price 0.01),
                    Some (mk_id (trade_counter j)))
              else (close_reversed SELL price (open_on p j) j, None))
      else if signal = ''SELL'' then
             (if \<not> list_ex (\<lambda>t. direction t = SELL) (open_on p j)
              then (fst (open_trade (close_reversed BUY price (open_on p j) j) p SELL price 0.01),
                    Some (mk_id (trade_counter j)))
              else (close_reversed BUY price (open_on p j) j, None))
      else (j, None))"
  by (simp add: on_signal_def open_on_def Let_def open_trade_def)

lemma on_signal_inv:
  assumes "one_per_pair j"
  shows "one_per_pair (fst (on_signal j p signal price))"
  using step_close_inv [OF assms] step_open_inv [OF assms]
  by (simp add: on_signal_unfold assms)

lemma run_signals_inv:
  "one_per_pair j \<Longrightarrow> one_per_pair (run_signals j sigs)"
proof (induction sigs arbitrary: j)
  case Nil
  then show ?case by (simp add: run_signals_def)
next
  case (Cons s sigs)
  obtain p signal price where s: "s = (p, signal, price)" by (cases s) auto
  from Cons.IH [OF on_signal_inv [OF Cons.prems, of p signal price]] s
  show ?case by (simp add: run_signals_def)
qed

lemma no_open_inv:
  "get_open_trades j = [] \<Longrightarrow> one_per_pair j"
  by (simp add: one_per_pair_def ids_ok_def open_on_def)

lemma close_first_map:
  "distinct (map trade_id (filter (\<lambda>t. status t = OPEN) ts)) \<Longrightarrow>
   t \<in> set ts \<Longrightarrow> status t = OPEN \<Longrightarrow>
   close_first (trade_id t) x r ts
     = Some (map (\<lambda>u. if u = t then close_fields t x r else u) ts, close_fields t x r)"
proof (induction ts)
  case Nil
  then show ?case by simp
next
  case (Cons u ts)
  show ?case
  proof (cases "trade_id u = trade_id t \<and> status u = OPEN")
    case True
    with Cons.prems have notin: "trade_id t \<notin> trade_id ` set (filter (\<lambda>t. status t = OPEN) ts)"
      by auto
    with Cons.prems(3) have "t \<notin> set ts" by auto
    with Cons.prems(2) have ut: "u = t" by simp
    from \<open>t \<notin> set ts\<close> have "map (\<lambda>u. if u = t then close_fields t x r else u) ts = ts"
      by (induction ts) auto
    with True ut show ?thesis by simp
  next
    case False
    with Cons.prems(3) have "u \<noteq> t" by auto
    with Cons.prems(2) have "t \<in> set ts" by simp
    moreover from Cons.prems(1) have "distinct (map trade_id (filter (\<lambda>t. status t = OPEN) ts))"
      by (simp split: if_splits)
    ultimately have "close_first (trade_id t) x r ts
        = Some (map (\<lambda>u. if u = t then close_fields t x r else u) ts, close_fields t x r)"
      using Cons.IH Cons.prems(3) by blast
    with False \<open>u \<noteq> t\<close> show ?thesis by auto
  qed
qed

lemma reversal_step:
  assumes inv: "one_per_pair j" and t: "t \<in> set (open_on p j)" and d: "direction t = BUY"
  shows "on_signal j p ''SELL'' price =
           (j\<lparr>trades := map (\<lambda>u. if u = t then close_fields t price ''REVERSED'' else u) (trades j)
                 @ [\<lparr>trade_id = mk_id (trade_counter j), pair = p, direction = SELL,
                     entry_price = price, lot_size = 0.01, status = OPEN, exit_price = None,
                     exit_reason = None, pips = 0, pnl = 0\<rparr>],
               balance := balance j + pnl (close_fields t price ''REVERSED''),
               trade_counter := trade_counter j + 1\<rparr>,
            Some (mk_id (trade_counter j)))"
    and "open_on p (fst (on_signal j p ''SELL'' price)) =
           [\<lparr>trade_id = mk_id (trade_counter j), pair = p, direction = SELL,
             entry_price = price, lot_size = 0.01, status = OPEN, exit_price = None,
             exit_reason = None, pips = 0, pnl = 0\<rparr>]"
proof -
  from inv have ok: "ids_ok j" and le: "length (open_on p j) \<le> 1"
    by (simp_all add: one_per_pair_def)
  from t le have pt: "open_on p j = [t]"
    by (cases "open_on p j") auto
  from t have tin: "t \<in> set (trades j)" and st: "status t = OPEN"
    by (simp_all add: open_on_def get_open_trades_def)
  from ok have dist: "distinct (map trade_id (filter (\<lambda>t. status t = OPEN) (trades j)))"
    by (simp add: ids_ok_def get_open_trades_def)
  have cf: "close_first (trade_id t) price ''REVERSED'' (trades j)
      = Some (map (\<lambda>u. if u = t then close_fields t price ''REVERSED'' else u) (trades j),
              close_fields t price ''REVERSED'')"
    by (rule close_first_map [OF dist tin st])
  show "on_signal j p ''SELL'' price =
           (j\<lparr>trades := map (\<lambda>u. if u = t then close_fields t price ''REVERSED'' else u) (trades j)
                 @ [\<lparr>trade_id = mk_id (trade_counter j), pair = p, direction = SELL,
                     entry_price = price, lot_size = 0.01, status = OPEN, exit_price = None,
                     exit_reason = None, pips = 0, pnl = 0\<rparr>],
               balance := balance j + pnl (close_fields t price ''REVERSED''),
               trade_counter := trade_counter j + 1\<rparr>,
            Some (mk_id (trade_counter j)))"
    using d by (simp add: on_signal_unfold pt close_trade_def cf open_trade_def Let_def)
  have a: "\<not> list_ex (\<lambda>t. direction t = SELL) (open_on p j)"
    using d by (simp add: pt)
  have e: "open_on p (close_reversed BUY price (open_on p j) j) = []"
    by (simp add: open_on_close_reversed [OF ok] none_left [OF a])
  show "open_on p (fst (on_signal j p ''SELL'' price)) =
           [\<lparr>trade_id = mk_id (trade_counter j), pair = p, direction = SELL,
             entry_price = price, lot_size = 0.01, status = OPEN, exit_price = None,
             exit_reason = None, pips = 0, pnl = 0\<rparr>]"
    using a e by (simp add: on_signal_unfold open_on_open_trade)
qed

subsection \<open>Ledgers reached from a fresh journal\<close>

lemma map_trade_id_closed_list:
  "map trade_id (closed_list tid x r ts) = map trade_id ts"
  by (induction ts) (simp_all add: closed_list_Cons)

lemma issued_ids_apply_op:
  assumes "issued_ids j"
  shows "issued_ids (apply_op j op)"
proof (cases op)
  case (OpOpen p d e l)
  with assms show ?thesis
    by (auto simp: issued_ids_def open_trade_def Let_def less_Suc_eq)
next
  case (OpClose tid x r)
  have ids: "trade_id ` set (trades (fst (close_trade j tid x r))) = trade_id ` set (trades j)"
    using map_trade_id_closed_list [of tid x r "trades j"]
    by (metis close_trade_trades set_map)
  have "issued_ids (fst (close_trade j tid x r))"
    unfolding issued_ids_def
  proof
    fix t assume "t \<in> set (trades (fst (close_trade j tid x r)))"
    then have "trade_id t \<in> trade_id ` set (trades j)" using ids by blast
    then obtain u where "u \<in> set (trades j)" "trade_id u = trade_id t" by auto
    with assms obtain k where "k < trade_counter j" "trade_id t = mk_id k"
      unfolding issued_ids_def by metis
    then show "\<exists>k<trade_counter (fst (close_trade j tid x r)). trade_id t = mk_id k"
      by auto
  qed
  with OpClose show ?thesis by simp
next
  case (OpReset b)
  then show ?thesis by (simp add: issued_ids_def reset_def)
qed

lemma issued_ids_run_ops: "issued_ids j \<Longrightarrow> issued_ids (run_ops j ops)"
  unfolding run_ops_def
  by (induction ops arbitrary: j) (simp_all add: issued_ids_apply_op)

lemma next_id_fresh:
  assumes "issued_ids j"
  shows "\<not> list_ex (\<lambda>t. trade_id t = mk_id (trade_counter j) \<and> status t = OPEN) (trades j)"
proof
  assume "list_ex (\<lambda>t. trade_id t = mk_id (trade_counter j) \<and> status t = OPEN) (trades j)"
  then obtain t where "t \<in> set (trades j)" "trade_id t = mk_id (trade_counter j)"
    by (auto simp: list_ex_iff)
  with assms obtain k where "k < trade_counter j" "mk_id k = mk_id (trade_counter j)"
    unfolding issued_ids_def by metis
  then show False using mk_id_inj by blast
qed

lemma next_id_fresh_reachable:
  "\<not> list_ex (\<lambda>t. trade_id t = mk_id (trade_counter (run_ops (init_journal b) ops))
                   \<and> status t = OPEN)
        (trades (run_ops (init_journal b) ops))"
  by (rule next_id_fresh [OF issued_ids_run_ops]) (simp add: issued_ids_def init_journal_def)

subsection \<open>The claims about the ledger\<close>

lemma mk_id_2: "mk_id 2 = ''TR0002''"
  by code_simp

lemma mk_id_3: "mk_id 3 = ''TR0003''"
  by code_simp

text \<open>
  The operations with \<open>(+)\<close> for the addition are the exact ones, for which
  \<open>run_ops_inv\<close> gives the balance as the base balance plus the plain sum.
\<close>

lemma close_trade_with_plus: "close_trade_with (+) j tid x r = close_trade j tid x r"
  by (simp add: close_trade_with_def close_trade_def)

lemma apply_op_with_plus: "apply_op_with (+) j op = apply_op j op"
  by (cases op) (simp_all add: close_trade_with_plus)

lemma run_ops_with_plus: "run_ops_with (+) j ops = run_ops j ops"
  by (induction ops arbitrary: j) (simp_all add: run_ops_with_def run_ops_def apply_op_with_plus)

lemma foldl_plus_sum: "foldl (+) b xs = b + sum_list (xs :: real list)"
  by (induction xs arbitrary: b) simp_all

lemma close_first_closed_mset:
  "close_first tid x r ts = Some (ts', c) \<Longrightarrow>
   mset (map pnl (filter (\<lambda>t. status t = CLOSED) ts'))
     = add_mset (pnl c) (mset (map pnl (filter (\<lambda>t. status t = CLOSED) ts)))"
proof (induction ts arbitrary: ts')
  case Nil
  then show ?case by simp
next
  case (Cons t ts)
  show ?case
  proof (cases "trade_id t = tid \<and> status t = OPEN")
    case True
    with Cons.prems show ?thesis by auto
  next
    case False
    with Cons.prems obtain us where us: "close_first tid x r ts = Some (us, c)" "ts' = t # us"
      by (auto split: option.splits)
    from Cons.IH [OF us(1)] us(2) show ?thesis by simp
  qed
qed

lemma run_ops_with_Cons:
  "run_ops_with add j (op # ops) = run_ops_with add (apply_op_with add j op) ops"
  by (simp add: run_ops_with_def)

lemma run_ops_with_log:
  "balance j = foldl add b acc \<Longrightarrow>
   mset acc = mset (map pnl (get_closed_trades j)) \<Longrightarrow>
   balance (run_ops_with add j ops) = foldl add (base_balance b ops) (pnl_log add j acc ops)
   \<and> mset (pnl_log add j acc ops) = mset (map pnl (get_closed_trades (run_ops_with add j ops)))"
proof (induction ops arbitrary: j b acc)
  case Nil
  then show ?case by (simp add: run_ops_with_def)
next
  case (Cons op ops)
  show ?case
  proof (cases op)
    case (OpOpen p d e l)
    have "balance (fst (open_trade j p d e l)) = foldl add b acc"
      using Cons.prems(1) by (simp add: open_trade_def Let_def)
    moreover have "mset acc = mset (map pnl (get_closed_trades (fst (open_trade j p d e l))))"
      using Cons.prems(2) by (simp add: open_trade_def Let_def get_closed_trades_def)
    ultimately show ?thesis
      using Cons.IH [of "fst (open_trade j p d e l)" b acc] OpOpen
      by (simp add: run_ops_with_Cons)
  next
    case (OpClose tid x r)
    show ?thesis
    proof (cases "close_first tid x r (trades j)")
      case None
      then have same: "close_trade_with add j tid x r = (j, None)"
        by (simp add: close_trade_with_def)
      with Cons.IH [OF Cons.prems] OpClose show ?thesis
        by (simp add: run_ops_with_Cons)
    next
      case (Some a)
      then obtain ts' c where a: "close_first tid x r (trades j) = Some (ts', c)"
        by (cases a) simp
      let ?j = "j\<lparr>trades := ts', balance := add (balance j) (pnl c)\<rparr>"
      have ct: "close_trade_with add j tid x r = (?j, Some c)"
        using a by (simp add: close_trade_with_def)
      have "balance ?j = foldl add b (acc @ [pnl c])"
        using Cons.prems(1) by simp
      moreover have "mset (acc @ [pnl c]) = mset (map pnl (get_closed_trades ?j))"
        using Cons.prems(2) close_first_closed_mset [OF a]
        by (simp add: get_closed_trades_def)
      ultimately show ?thesis
        using Cons.IH [of ?j b "acc @ [pnl c]"] OpClose ct
        by (simp add: run_ops_with_Cons)
    qed
  next
    case (OpReset nb)
    have "balance (reset j nb) = foldl add nb []" by (simp add: reset_def)
    moreover have "mset [] = mset (map pnl (get_closed_trades (reset j nb)))"
      by (simp add: reset_def get_closed_trades_def)
    ultimately show ?thesis
      using Cons.IH [of "reset j nb" nb "[]"] OpReset
      by (simp add: run_ops_with_Cons)
  qed
qed

lemma balance_changes_only_with:
  "balance (apply_op_with add j op) \<noteq> balance j \<Longrightarrow>
     (\<exists>nb. op = OpReset nb) \<or>
     (\<exists>tid x r. op = OpClose tid x r \<and> snd (close_trade_with add j tid x r) \<noteq> None)"
  by (cases op) (auto simp: open_trade_def Let_def close_trade_with_def split: option.splits)

lemma fl_add_lost: "fl_add 100000000000000000000 6250 = 100000000000000000000"
  using round_double_lost by (simp add: fl_add_def)

lemma fl_add_kept: "fl_add 100000000000000000000 12500 = 100000000000000016384"
  using round_double_kept by (simp add: fl_add_def)

lemma py_sum_6250: "py_sum fl_add [6250, 6250] = 12500"
  using round_double_6250 round_double_12500 by (simp add: py_sum_def fl_add_def)

lemma py_round_pips_5000: "py_round ((1.5 - 1) * 10000) 1 = 5000"
  by (simp add: py_round_def round_half_even_def Let_def)

lemma py_round_pnl_6250: "py_round (5000 * 0.125 * 10) 2 = 6250"
  by (simp add: py_round_def round_half_even_def Let_def)

text \<open>
  Claim C1 (ledger balance invariant) against the code. The balance is a running sum of
  doubles and every \<open>self.balance += trade['pnl']\<close> rounds. Start from a balance of
  \<open>10\<^sup>2\<^sup>0\<close>, where consecutive doubles are 16384 apart, and twice open BUY at 1.0
  with lot size 0.125 and close at 1.5: \<open>pips\<close> is 5000 and \<open>pnl\<close> 6250, every
  intermediate quantity being exact in doubles. Each addition of 6250 rounds back, so the
  balance is still \<open>10\<^sup>2\<^sup>0\<close>, while the initial balance plus \<open>sum\<close> of the \<open>pnl\<close> of
  the two CLOSED trades is \<open>10\<^sup>2\<^sup>0 + 16384\<close>.
\<close>

theorem ledger_balance_counterexample:
  "balance (run_ops_with fl_add (init_journal 100000000000000000000)
      [OpOpen ''EURUSD'' BUY 1 0.125, OpClose ''TR0002'' 1.5 ''TP'',
       OpOpen ''EURUSD'' BUY 1 0.125, OpClose ''TR0003'' 1.5 ''TP''])
     = 100000000000000000000
   \<and> map pnl (get_closed_trades (run_ops_with fl_add (init_journal 100000000000000000000)
        [OpOpen ''EURUSD'' BUY 1 0.125, OpClose ''TR0002'' 1.5 ''TP'',
         OpOpen ''EURUSD'' BUY 1 0.125, OpClose ''TR0003'' 1.5 ''TP'']))
     = [6250, 6250]
   \<and> fl_add 100000000000000000000 (py_sum fl_add [6250, 6250]) = 100000000000000016384"
  using py_round_pips_5000 py_round_pnl_6250 fl_add_lost fl_add_kept py_sum_6250
  by (simp add: run_ops_with_def init_journal_def open_trade_def Let_def
      close_trade_with_def close_fields_def mk_id_2 mk_id_3 get_closed_trades_def)

text \<open>
  Claim C1, amended. From a ledger whose balance is \<open>b\<close> to which the entries of \<open>acc\<close>
  have been added in turn, \<open>acc\<close> being the \<open>pnl\<close> of its CLOSED trades in some order,
  every sequence of \<open>open_trade\<close>, \<open>close_trade\<close> and \<open>reset\<close> calls leads to a ledger
  whose balance is the base balance (\<open>b\<close>, or the argument of the most recent reset) to
  which the \<open>pnl\<close> of each trade closed since has been added, one addition per close in
  the order of closing; these are, up to order, the \<open>pnl\<close> of all CLOSED trades. A further
  operation changes the balance only if it is a reset or a \<open>close_trade\<close> that found a
  trade to close. This holds for the addition of doubles \<open>fl_add\<close> as for any other; the
  balance is the base balance plus the sum only as far as these additions are exact.
\<close>

theorem ledger_balance_running_sum:
  assumes "balance j = foldl add b acc"
    and "mset acc = mset (map pnl (get_closed_trades j))"
  shows "balance (run_ops_with add j ops)
           = foldl add (base_balance b ops) (pnl_log add j acc ops)
       \<and> mset (pnl_log add j acc ops)
           = mset (map pnl (get_closed_trades (run_ops_with add j ops)))
       \<and> (balance (apply_op_with add (run_ops_with add j ops) op)
              \<noteq> balance (run_ops_with add j ops) \<longrightarrow>
            (\<exists>nb. op = OpReset nb) \<or>
            (\<exists>tid x r. op = OpClose tid x r
               \<and> snd (close_trade_with add (run_ops_with add j ops) tid x r) \<noteq> None))"
  using run_ops_with_log [OF assms] balance_changes_only_with by blast

theorem ledger_balance_running_sum_witness:
  "balance (init_journal 100000000000000000000) = foldl fl_add 100000000000000000000 []
   \<and> mset [] = mset (map pnl (get_closed_trades (init_journal 100000000000000000000)))
   \<and> pnl_log fl_add (init_journal 100000000000000000000) []
        [OpOpen ''EURUSD'' BUY 1 0.125, OpClose ''TR0002'' 1.5 ''TP'',
         OpOpen ''EURUSD'' BUY 1 0.125, OpClose ''TR0003'' 1.5 ''TP''] = [6250, 6250]
   \<and> balance (run_ops_with fl_add (init_journal 100000000000000000000)
        [OpOpen ''EURUSD'' BUY 1 0.125, OpClose ''TR0002'' 1.5 ''TP'',
         OpOpen ''EURUSD'' BUY 1 0.125, OpClose ''TR0003'' 1.5 ''TP''])
       = foldl fl_add 100000000000000000000 [6250, 6250]"
proof -
  let ?j = "init_journal 100000000000000000000"
  let ?ops = "[OpOpen ''EURUSD'' BUY 1 0.125, OpClose ''TR0002'' 1.5 ''TP'',
         OpOpen ''EURUSD'' BUY 1 0.125, OpClose ''TR0003'' 1.5 ''TP'']"
  have h1: "balance ?j = foldl fl_add 100000000000000000000 []"
    by (simp add: init_journal_def)
  have h2: "mset [] = mset (map pnl (get_closed_trades ?j))"
    by (simp add: init_journal_def get_closed_trades_def)
  have lg: "pnl_log fl_add ?j [] ?ops = [6250, 6250]"
    using py_round_pips_5000 py_round_pnl_6250
    by (simp add: init_journal_def open_trade_def Let_def
        close_trade_with_def close_fields_def mk_id_2 mk_id_3)
  from ledger_balance_running_sum [OF h1 h2, of ?ops "OpReset 0"]
  have "balance (run_ops_with fl_add ?j ?ops)
          = foldl fl_add (base_balance 100000000000000000000 ?ops) (pnl_log fl_add ?j [] ?ops)"
    by (rule conjunct1)
  with lg have "balance (run_ops_with fl_add ?j ?ops)
          = foldl fl_add 100000000000000000000 [6250, 6250]" by simp
  with h1 h2 lg show ?thesis by simp
qed

text \<open>
  A journal constructed over the file of an earlier run starts its counter again: the
  first id it issues is that of a trade already stored.
\<close>

lemma init_journal_new: "init_journal b = new_journal None None b"
  by (simp add: init_journal_def new_journal_def)

lemma new_journal_counter:
  "trade_counter (new_journal (Some (ts, n_keys)) bf b) = n_keys + 1"
  by (simp add: new_journal_def)

lemma reload_reissues_id:
  "snd (open_trade (init_journal b) p d e l) = ''TR0002''
   \<and> snd (open_trade
        (new_journal (Some (trades (fst (open_trade (init_journal b) p d e l)), 1)) None b)
        p' d' e' l') = ''TR0002''"
proof -
  have s: "Suc (Suc 0) = 2" by simp
  have "mk_id (Suc (Suc 0)) = ''TR0002''" unfolding s by (rule mk_id_2)
  then show ?thesis
    using mk_id_2 by (simp add: init_journal_def new_journal_def open_trade_def Let_def)
qed




text \<open>
  The same round trip with the addition of doubles, from the default balance: 10000 + 5 is
  exact, and the balance is 10005.
\<close>

lemma ledger_round_trip_doubles:
  "balance (fst (close_trade_with fl_add
      (fst (open_trade (init_journal 10000) ''EURUSD'' BUY 1.1000 0.01))
      ''TR0002'' 1.1050 ''TP'')) = 10005"
  using py_round_pips py_round_pnl round_double_10005
  by (simp add: init_journal_def open_trade_def Let_def close_trade_with_def
      close_fields_def mk_id_2 fl_add_def)

text \<open>
  Claim C3, as stated, fails: \<open>open_trade\<close> has no check for an existing OPEN trade.
  On a fresh ledger that already holds an OPEN BUY trade on EURUSD, a second
  \<open>open_trade\<close> for BUY EURUSD returns the id TR0003 and the ledger then holds two OPEN
  BUY trades on EURUSD.
\<close>

theorem open_trade_conflict_counterexample:
  "map pair (get_open_trades (fst (open_trade (init_journal 10000) ''EURUSD'' BUY 1.1 0.01)))
      = [''EURUSD'']
   \<and> map direction (get_open_trades (fst (open_trade (init_journal 10000) ''EURUSD'' BUY 1.1 0.01)))
      = [BUY]
   \<and> snd (open_trade (fst (open_trade (init_journal 10000) ''EURUSD'' BUY 1.1 0.01))
            ''EURUSD'' BUY 1.1 0.01) = ''TR0003''
   \<and> map pair (get_open_trades (fst (open_trade
        (fst (open_trade (init_journal 10000) ''EURUSD'' BUY 1.1 0.01)) ''EURUSD'' BUY 1.1 0.01)))
      = [''EURUSD'', ''EURUSD'']
   \<and> map direction (get_open_trades (fst (open_trade
        (fst (open_trade (init_journal 10000) ''EURUSD'' BUY 1.1 0.01)) ''EURUSD'' BUY 1.1 0.01)))
      = [BUY, BUY]"
  using mk_id_3
  by (simp add: open_trade_def init_journal_def get_open_trades_def Let_def)

text \<open>
  Claim C3, amended. \<open>open_trade\<close> never refuses: in every ledger state it appends one
  new OPEN trade for the given pair and direction, returns its id, and leaves the balance
  alone. The duplicate is avoided one layer up: \<open>on_signal\<close> does not call \<open>open_trade\<close>
  (returns no id and adds no trade) when an OPEN trade of the signalled direction already
  exists on the pair.
\<close>

theorem open_trade_never_refuses:
  "get_open_trades (fst (open_trade j p d e l))
     = get_open_trades j @ [\<lparr>trade_id = snd (open_trade j p d e l), pair = p, direction = d,
         entry_price = e, lot_size = l, status = OPEN, exit_price = None, exit_reason = None,
         pips = 0, pnl = 0\<rparr>]
   \<and> snd (open_trade j p d e l) = mk_id (trade_counter j)
   \<and> balance (fst (open_trade j p d e l)) = balance j
   \<and> (list_ex (\<lambda>t. direction t = BUY) (open_on p j) \<longrightarrow>
        snd (on_signal j p ''BUY'' price) = None
        \<and> length (trades (fst (on_signal j p ''BUY'' price))) = length (trades j))
   \<and> (list_ex (\<lambda>t. direction t = SELL) (open_on p j) \<longrightarrow>
        snd (on_signal j p ''SELL'' price) = None
        \<and> length (trades (fst (on_signal j p ''SELL'' price))) = length (trades j))"
  by (simp add: get_open_open_trade on_signal_unfold) (simp add: open_trade_def Let_def)

theorem open_trade_never_refuses_witness:
  "list_ex (\<lambda>t. direction t = BUY)
      (open_on ''EURUSD'' (fst (open_trade (init_journal 10000) ''EURUSD'' BUY 1.1 0.01)))
   \<and> snd (on_signal (fst (open_trade (init_journal 10000) ''EURUSD'' BUY 1.1 0.01))
        ''EURUSD'' ''BUY'' 1.2) = None
   \<and> length (trades (fst (on_signal (fst (open_trade (init_journal 10000) ''EURUSD'' BUY 1.1 0.01))
        ''EURUSD'' ''BUY'' 1.2))) = 1
   \<and> list_ex (\<lambda>t. direction t = SELL)
      (open_on ''GBPUSD'' (fst (open_trade (init_journal 10000) ''GBPUSD'' SELL 1.3 0.01)))
   \<and> snd (on_signal (fst (open_trade (init_journal 10000) ''GBPUSD'' SELL 1.3 0.01))
        ''GBPUSD'' ''SELL'' 1.2) = None
   \<and> length (trades (fst (on_signal (fst (open_trade (init_journal 10000) ''GBPUSD'' SELL 1.3 0.01))
        ''GBPUSD'' ''SELL'' 1.2))) = 1
   \<and> length (get_open_trades (fst (open_trade
        (fst (open_trade (init_journal 10000) ''EURUSD'' BUY 1.1 0.01)) ''EURUSD'' BUY 1.1 0.01)))
      = 2"
proof -
  let ?j = "fst (open_trade (init_journal 10000) ''EURUSD'' BUY 1.1 0.01)"
  let ?k = "fst (open_trade (init_journal 10000) ''GBPUSD'' SELL 1.3 0.01)"
  have h: "list_ex (\<lambda>t. direction t = BUY) (open_on ''EURUSD'' ?j)"
    by (simp add: open_on_def get_open_trades_def open_trade_def init_journal_def Let_def)
  have h': "list_ex (\<lambda>t. direction t = SELL) (open_on ''GBPUSD'' ?k)"
    by (simp add: open_on_def get_open_trades_def open_trade_def init_journal_def Let_def)
  have l: "length (trades ?j) = 1" "length (get_open_trades ?j) = 1" "length (trades ?k) = 1"
    by (simp_all add: open_trade_def init_journal_def Let_def get_open_trades_def)
  from open_trade_never_refuses [of ?j "''EURUSD''" BUY "1.1" "0.01" "1.2"] h l
  have 1: "snd (on_signal ?j ''EURUSD'' ''BUY'' 1.2) = None
      \<and> length (trades (fst (on_signal ?j ''EURUSD'' ''BUY'' 1.2))) = 1
      \<and> length (get_open_trades (fst (open_trade ?j ''EURUSD'' BUY 1.1 0.01))) = 2"
    by simp
  from open_trade_never_refuses [of ?k "''GBPUSD''" SELL "1.3" "0.01" "1.2"] h' l
  have 2: "snd (on_signal ?k ''GBPUSD'' ''SELL'' 1.2) = None
      \<and> length (trades (fst (on_signal ?k ''GBPUSD'' ''SELL'' 1.2))) = 1"
    by simp
  from h h' 1 2 show ?thesis by simp
qed

text \<open>
  Claim C4 (VirtualTrader reversal invariant). Starting from a ledger with no OPEN trade,
  after every sequence of \<open>on_signal\<close> calls each pair has at most one OPEN trade.
  In such a state a HOLD signal returns the ledger unchanged; and a SELL signal on a pair
  whose OPEN trade \<open>t\<close> is a BUY replaces \<open>t\<close> by its closed form (status CLOSED,
  exit reason REVERSED, exit price the signal price), appends a new OPEN SELL trade after
  it, and leaves that SELL as the only OPEN trade of the pair.
\<close>

theorem on_signal_reversal_invariant:
  assumes "get_open_trades j0 = []"
  shows "length (open_on p (run_signals j0 sigs)) \<le> 1
     \<and> on_signal (run_signals j0 sigs) p ''HOLD'' price = (run_signals j0 sigs, None)
     \<and> (\<forall>t. t \<in> set (open_on p (run_signals j0 sigs)) \<and> direction t = BUY \<longrightarrow>
          on_signal (run_signals j0 sigs) p ''SELL'' price =
            ((run_signals j0 sigs)
               \<lparr>trades := map (\<lambda>u. if u = t then close_fields t price ''REVERSED'' else u)
                            (trades (run_signals j0 sigs))
                   @ [\<lparr>trade_id = mk_id (trade_counter (run_signals j0 sigs)), pair = p,
                       direction = SELL, entry_price = price, lot_size = 0.01, status = OPEN,
                       exit_price = None, exit_reason = None, pips = 0, pnl = 0\<rparr>],
                 balance := balance (run_signals j0 sigs)
                              + pnl (close_fields t price ''REVERSED''),
                 trade_counter := trade_counter (run_signals j0 sigs) + 1\<rparr>,
             Some (mk_id (trade_counter (run_signals j0 sigs))))
          \<and> status (close_fields t price ''REVERSED'') = CLOSED
          \<and> exit_reason (close_fields t price ''REVERSED'') = Some ''REVERSED''
          \<and> open_on p (fst (on_signal (run_signals j0 sigs) p ''SELL'' price)) =
              [\<lparr>trade_id = mk_id (trade_counter (run_signals j0 sigs)), pair = p,
                direction = SELL, entry_price = price, lot_size = 0.01, status = OPEN,
                exit_price = None, exit_reason = None, pips = 0, pnl = 0\<rparr>])"
proof -
  have inv: "one_per_pair (run_signals j0 sigs)"
    by (rule run_signals_inv [OF no_open_inv [OF assms]])
  then have "length (open_on p (run_signals j0 sigs)) \<le> 1"
    by (simp add: one_per_pair_def)
  moreover have "on_signal (run_signals j0 sigs) p ''HOLD'' price = (run_signals j0 sigs, None)"
    by (simp add: on_signal_def)
  moreover have "\<forall>t. t \<in> set (open_on p (run_signals j0 sigs)) \<and> direction t = BUY \<longrightarrow>
          on_signal (run_signals j0 sigs) p ''SELL'' price =
            ((run_signals j0 sigs)
               \<lparr>trades := map (\<lambda>u. if u = t then close_fields t price ''REVERSED'' else u)
                            (trades (run_signals j0 sigs))
                   @ [\<lparr>trade_id = mk_id (trade_counter (run_signals j0 sigs)), pair = p,
                       direction = SELL, entry_price = price, lot_size = 0.01, status = OPEN,
                       exit_price = None, exit_reason = None, pips = 0, pnl = 0\<rparr>],
                 balance := balance (run_signals j0 sigs)
                              + pnl (close_fields t price ''REVERSED''),
                 trade_counter := trade_counter (run_signals j0 sigs) + 1\<rparr>,
             Some (mk_id (trade_counter (run_signals j0 sigs))))
          \<and> status (close_fields t price ''REVERSED'') = CLOSED
          \<and> exit_reason (close_fields t price ''REVERSED'') = Some ''REVERSED''
          \<and> open_on p (fst (on_signal (run_signals j0 sigs) p ''SELL'' price)) =
              [\<lparr>trade_id = mk_id (trade_counter (run_signals j0 sigs)), pair = p,
                direction = SELL, entry_price = price, lot_size = 0.01, status = OPEN,
                exit_price = None, exit_reason = None, pips = 0, pnl = 0\<rparr>]"
  proof (intro allI impI, elim conjE)
    fix t
    assume t: "t \<in> set (open_on p (run_signals j0 sigs))" and d: "direction t = BUY"
    note r = reversal_step [OF inv t d, of price]
    show "on_signal (run_signals j0 sigs) p ''SELL'' price =
            ((run_signals j0 sigs)
               \<lparr>trades := map (\<lambda>u. if u = t then close_fields t price ''REVERSED'' else u)
                            (trades (run_signals j0 sigs))
                   @ [\<lparr>trade_id = mk_id (trade_counter (run_signals j0 sigs)), pair = p,
                       direction = SELL, entry_price = price, lot_size = 0.01, status = OPEN,
                       exit_price = None, exit_reason = None, pips = 0, pnl = 0\<rparr>],
                 balance := balance (run_signals j0 sigs)
                              + pnl (close_fields t price ''REVERSED''),
                 trade_counter := trade_counter (run_signals j0 sigs) + 1\<rparr>,
             Some (mk_id (trade_counter (run_signals j0 sigs))))
          \<and> status (close_fields t price ''REVERSED'') = CLOSED
          \<and> exit_reason (close_fields t price ''REVERSED'') = Some ''REVERSED''
          \<and> open_on p (fst (on_signal (run_signals j0 sigs) p ''SELL'' price)) =
              [\<lparr>trade_id = mk_id (trade_counter (run_signals j0 sigs)), pair = p,
                direction = SELL, entry_price = price, lot_size = 0.01, status = OPEN,
                exit_price = None, exit_reason = None, pips = 0, pnl = 0\<rparr>]"
      by (intro conjI) (rule r(1), simp, simp, rule r(2))
  qed
  ultimately show ?thesis by blast
qed

theorem on_signal_reversal_invariant_witness:
  "get_open_trades (init_journal 10000) = []
   \<and> open_on ''EURUSD'' (run_signals (init_journal 10000) [(''EURUSD'', ''BUY'', 1.1)])
       = [\<lparr>trade_id = ''TR0002'', pair = ''EURUSD'', direction = BUY, entry_price = 1.1,
           lot_size = 0.01, status = OPEN, exit_price = None, exit_reason = None,
           pips = 0, pnl = 0\<rparr>]
   \<and> open_on ''EURUSD'' (fst (on_signal
        (run_signals (init_journal 10000) [(''EURUSD'', ''BUY'', 1.1)])
        ''EURUSD'' ''SELL'' 1.2))
       = [\<lparr>trade_id = ''TR0003'', pair = ''EURUSD'', direction = SELL, entry_price = 1.2,
           lot_size = 0.01, status = OPEN, exit_price = None, exit_reason = None,
           pips = 0, pnl = 0\<rparr>]"
proof -
  define J where "J = run_signals (init_journal 10000) [(''EURUSD'', ''BUY'', 1.1)]"
  define t where "t = \<lparr>trade_id = ''TR0002'', pair = ''EURUSD'', direction = BUY,
     entry_price = 1.1, lot_size = 0.01, status = OPEN, exit_price = None,
     exit_reason = None, pips = 0, pnl = 0\<rparr>"
  have h: "get_open_trades (init_journal 10000) = []"
    by (simp add: init_journal_def get_open_trades_def)
  have J: "J = \<lparr>trades = [t], balance = 10000, trade_counter = 3\<rparr>"
    using mk_id_2 unfolding J_def t_def
    by (simp add: run_signals_def on_signal_def init_journal_def get_open_trades_def
        open_trade_def Let_def)
  have o: "open_on ''EURUSD'' J = [t]"
    by (simp add: J open_on_def get_open_trades_def t_def)
  have c: "mk_id (trade_counter J) = ''TR0003''"
    using mk_id_3 by (simp add: J)
  have p: "t \<in> set (open_on ''EURUSD'' J) \<and> direction t = BUY"
    by (simp add: o) (simp add: t_def)
  from on_signal_reversal_invariant [OF h, of "''EURUSD''" "[(''EURUSD'', ''BUY'', 1.1)]" "1.2"]
  have "open_on ''EURUSD'' (fst (on_signal J ''EURUSD'' ''SELL'' 1.2)) =
              [\<lparr>trade_id = mk_id (trade_counter J), pair = ''EURUSD'',
                direction = SELL, entry_price = 1.2, lot_size = 0.01, status = OPEN,
                exit_price = None, exit_reason = None, pips = 0, pnl = 0\<rparr>]"
    using p unfolding J_def [symmetric] by blast
  with h o c show ?thesis
    unfolding J_def [symmetric] t_def by simp
qed

section \<open>Trend classification: proofs\<close>

lemma length_ewm_from [simp]: "length (ewm_from a y xs) = length xs"
  by (induction xs arbitrary: y) simp_all

lemma length_ewm_mean [simp]: "length (ewm_mean a xs) = length xs"
  by (cases xs) simp_all

lemma length_ema_values [simp]: "length (ema_values close period) = length close"
  by (simp add: ema_values_def)

lemma calculate_ema_valid: "1 \<le> period \<Longrightarrow> calculate_ema close period = Inr (ema_values close period)"
  by (simp add: calculate_ema_def ema_values_def)

lemma calculate_ema_invalid: "period < 1 \<Longrightarrow> calculate_ema close period = Inl ValueError"
  by (simp add: calculate_ema_def)

lemma iloc_empty [simp]: "iloc [] k = Inl IndexError"
  by (simp add: iloc_def Let_def)

lemma iloc_last: "xs \<noteq> [] \<Longrightarrow> iloc xs (- 1) = Inr (last xs)"
  by (cases xs rule: rev_cases) (simp_all add: iloc_def Let_def nth_append)

lemma ema_values_nonempty: "close \<noteq> [] \<Longrightarrow> ema_values close s \<noteq> []"
  by (cases close) (simp_all add: ema_values_def)

lemma get_trend_eq:
  assumes "close \<noteq> []" "1 \<le> f" "1 \<le> s" "200 \<le> length close \<longrightarrow> 1 \<le> t"
  shows "get_trend close f s t =
     Inr (let p = last close; e200 = last (trend_ema close s t); e50 = last (ema_values close s)
          in if p > e200 \<and> e50 > e200 then STRONG_UPTREND
                else if p > e200 then WEAK_UPTREND
                else if p < e200 \<and> e50 < e200 then STRONG_DOWNTREND
                else if p < e200 then WEAK_DOWNTREND
                else RANGE_BOUND)"
  using assms
  by (simp add: get_trend_def Let_def bind_err_def iloc_last calculate_ema_valid
      ema_values_nonempty trend_ema_def)

lemma get_trend_empty:
  "1 \<le> f \<Longrightarrow> 1 \<le> s \<Longrightarrow> get_trend [] f s t = Inl IndexError"
  by (simp add: get_trend_def bind_err_def calculate_ema_valid)

lemma get_trend_invalid_period:
  assumes "f < 1 \<or> s < 1 \<or> (200 \<le> length close \<and> t < 1)"
  shows "get_trend close f s t = Inl ValueError"
proof (cases "f < 1")
  case True
  then show ?thesis by (simp add: get_trend_def bind_err_def calculate_ema_invalid)
next
  case f: False
  show ?thesis
  proof (cases "s < 1")
    case True
    with f show ?thesis by (simp add: get_trend_def bind_err_def calculate_ema_def)
  next
    case False
    with f assms have "200 \<le> length close" "t < 1" by auto
    with f False show ?thesis by (simp add: get_trend_def bind_err_def calculate_ema_def)
  qed
qed

lemma get_trend_returns_iff:
  "(\<exists>r. get_trend close f s t = Inr r)
     \<longleftrightarrow> close \<noteq> [] \<and> 1 \<le> f \<and> 1 \<le> s \<and> (200 \<le> length close \<longrightarrow> 1 \<le> t)"
proof
  assume r: "\<exists>r. get_trend close f s t = Inr r"
  have "\<not> (f < 1 \<or> s < 1 \<or> (200 \<le> length close \<and> t < 1))"
    using r get_trend_invalid_period [of f s close t] by auto
  moreover from this have "close \<noteq> []" using r get_trend_empty [of f s t] by auto
  ultimately show "close \<noteq> [] \<and> 1 \<le> f \<and> 1 \<le> s \<and> (200 \<le> length close \<longrightarrow> 1 \<le> t)"
    by auto
next
  assume "close \<noteq> [] \<and> 1 \<le> f \<and> 1 \<le> s \<and> (200 \<le> length close \<longrightarrow> 1 \<le> t)"
  then show "\<exists>r. get_trend close f s t = Inr r" by (simp add: get_trend_eq)
qed

text \<open>
  Claim C8 (trend classification is total) against the code. On the empty close series
  \<open>close.iloc[-1]\<close> raises IndexError, and with a period below 1 \<open>ewm\<close> raises
  ValueError: \<open>get_trend\<close> returns no trend there.
\<close>

theorem get_trend_counterexample:
  "get_trend [] 20 50 200 = Inl IndexError
   \<and> get_trend [1, 2, 3] 0 50 200 = Inl ValueError"
  by (simp add: get_trend_def bind_err_def calculate_ema_def)

text \<open>
  Claim C8, amended. For every non-empty close series and periods of at least 1 (the
  trend period counting only when it is used, from 200 bars on) \<open>get_trend\<close> returns a
  value of the five-valued type, namely the result of the first rule of the ordered
  decision table whose condition holds and RANGE\_BOUND when none does; when the current
  price equals the trend EMA the result is RANGE\_BOUND. By \<open>get_trend_returns_iff\<close>
  these are exactly the inputs on which it returns.
\<close>

theorem get_trend_total_on_valid_input:
  assumes "close \<noteq> []" and "1 \<le> ema_fast" and "1 \<le> ema_slow"
    and "200 \<le> length close \<longrightarrow> 1 \<le> ema_trend"
  shows "get_trend close ema_fast ema_slow ema_trend =
           Inr (first_match
                  (spec_trend_rules (last close) (last (ema_values close ema_slow))
                     (last (trend_ema close ema_slow ema_trend)))
                  RANGE_BOUND)
       \<and> (last close = last (trend_ema close ema_slow ema_trend) \<longrightarrow>
            get_trend close ema_fast ema_slow ema_trend = Inr RANGE_BOUND)"
  by (simp add: get_trend_eq [OF assms] spec_trend_rules_def Let_def)

theorem get_trend_total_on_valid_input_witness:
  "[2, 2, 2 :: real] \<noteq> [] \<and> (1::int) \<le> 20 \<and> (1::int) \<le> 50
   \<and> length [2, 2, 2 :: real] < 200 \<and> (1::int) \<le> 200
   \<and> get_trend [2, 2, 2] 20 50 200 = Inr RANGE_BOUND"
  using get_trend_total_on_valid_input [of "[2, 2, 2]" 20 50 200]
  by (simp add: trend_ema_def ema_values_def spec_trend_rules_def)

text \<open>
  Claim C10 (no STRONG trend below 200 bars). With fewer than 200 bars the trend EMA is
  the slow EMA itself, so \<open>get_trend\<close> never returns STRONG\_UPTREND or
  STRONG\_DOWNTREND; on a non-empty series with periods of at least 1 it returns
  WEAK\_UPTREND, WEAK\_DOWNTREND or RANGE\_BOUND according to the current price being
  above, below or equal to the slow EMA.
\<close>

theorem get_trend_short_never_strong:
  assumes "length close < 200"
  shows "get_trend close ema_fast ema_slow ema_trend \<noteq> Inr STRONG_UPTREND
       \<and> get_trend close ema_fast ema_slow ema_trend \<noteq> Inr STRONG_DOWNTREND
       \<and> (close \<noteq> [] \<and> 1 \<le> ema_fast \<and> 1 \<le> ema_slow \<longrightarrow>
            get_trend close ema_fast ema_slow ema_trend
              = Inr (if last close > last (ema_values close ema_slow) then WEAK_UPTREND
                     else if last close < last (ema_values close ema_slow) then WEAK_DOWNTREND
                     else RANGE_BOUND))"
proof (cases "close \<noteq> [] \<and> 1 \<le> ema_fast \<and> 1 \<le> ema_slow")
  case True
  from assms have e: "trend_ema close ema_slow ema_trend = ema_values close ema_slow"
    by (simp add: trend_ema_def)
  from True assms have "get_trend close ema_fast ema_slow ema_trend =
     Inr (let p = last close; e200 = last (trend_ema close ema_slow ema_trend);
              e50 = last (ema_values close ema_slow)
          in if p > e200 \<and> e50 > e200 then STRONG_UPTREND
                else if p > e200 then WEAK_UPTREND
                else if p < e200 \<and> e50 < e200 then STRONG_DOWNTREND
                else if p < e200 then WEAK_DOWNTREND
                else RANGE_BOUND)"
    by (intro get_trend_eq) simp_all
  with e True show ?thesis by (simp add: Let_def)
next
  case False
  have "\<not> (\<exists>r. get_trend close ema_fast ema_slow ema_trend = Inr r)"
    using False get_trend_returns_iff [of close ema_fast ema_slow ema_trend] by blast
  with False show ?thesis by auto
qed

theorem get_trend_short_never_strong_witness:
  "length [1, 2, 3 :: real] < 200 \<and> get_trend [1, 2, 3] 20 50 200 = Inr WEAK_UPTREND"
  using get_trend_short_never_strong [of "[1, 2, 3]" 20 50 200]
  by (simp add: ema_values_def)

section \<open>Support and resistance clustering: proofs\<close>

text \<open>
  Claim C7 (every candidate, the maximum included, falls into exactly one bin) against
  the code at the candidates 1, 2, 3 with two clusters: \<open>min_p = 1\<close>, \<open>step = 1\<close>,
  bin 0 holds 1, bin 1 holds 2, and the maximum 3 is in no bin, so it contributes to no
  level. (All the numbers involved are exact in doubles: the upper bound of the topmost
  bin is the maximum itself, and the comparison is strict.)
\<close>

theorem cluster_levels_drops_maximum:
  "bin_levels [1, 2, 3] 1 1 0 = [1] \<and> bin_levels [1, 2, 3] 1 1 1 = [2]
   \<and> cluster_levels [1, 2, 3] 2 = Inr [1, 2]"
  by code_simp

section \<open>Candlestick patterns: proofs\<close>

lemma single_patterns_eq:
  "single_patterns (from_end data 1)
     = filter (pattern_cond data) [DOJI, BULLISH_HAMMER, INVERTED_HAMMER, SHOOTING_STAR]"
proof -
  have "single_patterns (from_end data 1)
      = (if pattern_cond data DOJI then [DOJI] else [])
      @ (if pattern_cond data BULLISH_HAMMER then [BULLISH_HAMMER] else [])
      @ (if pattern_cond data INVERTED_HAMMER then [INVERTED_HAMMER] else [])
      @ (if pattern_cond data SHOOTING_STAR then [SHOOTING_STAR] else [])"
    by (simp only: single_patterns_def pattern_cond.simps Let_def body_def upper_shadow_def
        lower_shadow_def bullish_def bearish_def)
  then show ?thesis by (simp del: pattern_cond.simps)
qed

lemma engulfing_patterns_eq:
  "engulfing_patterns (from_end data 1) (from_end data 2)
     = filter (pattern_cond data) [BULLISH_ENGULFING, BEARISH_ENGULFING]"
proof -
  have "engulfing_patterns (from_end data 1) (from_end data 2)
      = (if pattern_cond data BULLISH_ENGULFING then [BULLISH_ENGULFING] else [])
      @ (if pattern_cond data BEARISH_ENGULFING then [BEARISH_ENGULFING] else [])"
    by (simp only: engulfing_patterns_def pattern_cond.simps Let_def bullish_def bearish_def)
  then show ?thesis by (simp del: pattern_cond.simps)
qed

lemma iloc_from_end:
  "0 < k \<Longrightarrow> k \<le> length xs \<Longrightarrow> iloc xs (- int k) = Inr (from_end xs k)"
proof -
  assume k: "0 < k" "k \<le> length xs"
  have "nat (int (length xs) - int k) = length xs - k"
    by (simp add: nat_minus_as_int)
  with k show ?thesis
    by (simp add: iloc_def from_end_def Let_def)
qed

lemma iloc_too_short:
  "length xs < k \<Longrightarrow> iloc xs (- int k) = Inl IndexError"
  by (simp add: iloc_def Let_def)

lemma iloc_m1: "1 \<le> length xs \<Longrightarrow> iloc xs (- 1) = Inr (from_end xs 1)"
  using iloc_from_end [of 1 xs] by simp

lemma iloc_m2: "2 \<le> length xs \<Longrightarrow> iloc xs (- 2) = Inr (from_end xs 2)"
  using iloc_from_end [of 2 xs] by simp

lemma iloc_m3: "3 \<le> length xs \<Longrightarrow> iloc xs (- 3) = Inr (from_end xs 3)"
  using iloc_from_end [of 3 xs] by simp

lemma iloc_m4: "4 \<le> length xs \<Longrightarrow> iloc xs (- 4) = Inr (from_end xs 4)"
  using iloc_from_end [of 4 xs] by simp

lemma iloc_m4_short: "length xs < 4 \<Longrightarrow> iloc xs (- 4) = Inl IndexError"
  using iloc_too_short [of xs 4] by simp

lemma from_end_map: "0 < k \<Longrightarrow> k \<le> length xs \<Longrightarrow> from_end (map f xs) k = f (from_end xs k)"
  by (simp add: from_end_def)

lemma morning_star_eq:
  "morning_star data (from_end data 1) = Inr (filter (pattern_cond data) [MORNING_STAR])"
proof (cases "3 \<le> length data")
  case True
  then have 2: "2 \<le> length data" by simp
  have "morning_star data (from_end data 1)
      = Inr (if pattern_cond data MORNING_STAR then [MORNING_STAR] else [])"
    by (simp only: morning_star_def bind_err_def iloc_m3 [OF True] iloc_m2 [OF 2] sum.case
        pattern_cond.simps Let_def body_def bullish_def bearish_def True if_True simp_thms)
  then show ?thesis by (simp del: pattern_cond.simps)
next
  case False
  then show ?thesis by (simp add: morning_star_def)
qed

lemma evening_star_eq:
  "evening_star data (from_end data 1) = Inr (filter (pattern_cond data) [EVENING_STAR])"
proof (cases "3 \<le> length data")
  case True
  then have 2: "2 \<le> length data" by simp
  have "evening_star data (from_end data 1)
      = Inr (if pattern_cond data EVENING_STAR then [EVENING_STAR] else [])"
    by (simp only: evening_star_def bind_err_def iloc_m3 [OF True] iloc_m2 [OF 2] sum.case
        pattern_cond.simps Let_def body_def bullish_def bearish_def True if_True simp_thms)
  then show ?thesis by (simp del: pattern_cond.simps)
next
  case False
  then show ?thesis by (simp add: evening_star_def)
qed

lemma upt_0_3: "[0..<3] = [0, 1, 2::nat]"
  by (simp add: numeral_3_eq_3 numeral_2_eq_2)

lemma bullish_at_from_end:
  "0 < k \<Longrightarrow> k \<le> length data \<Longrightarrow> bullish_at data (- int k) = Inr (bullish (from_end data k))"
  by (simp add: bullish_at_def bind_err_def iloc_from_end from_end_map bullish_def)

lemma closes_higher_at_from_end:
  "0 < k \<Longrightarrow> k \<le> length data \<Longrightarrow> 0 < k' \<Longrightarrow> k' \<le> length data \<Longrightarrow>
   closes_higher_at data (- int k) (- int k')
     = Inr (bar_close (from_end data k) > bar_close (from_end data k'))"
  by (simp add: closes_higher_at_def bind_err_def iloc_from_end from_end_map)

lemma closes_higher_at_short:
  "0 < k \<Longrightarrow> k \<le> length data \<Longrightarrow> length data < k' \<Longrightarrow>
   closes_higher_at data (- int k) (- int k') = Inl IndexError"
  by (simp add: closes_higher_at_def bind_err_def iloc_from_end iloc_too_short)

lemma first_bullish3_eq:
  assumes "3 \<le> length data"
  shows "first_bullish3 data = Inr (bullish (from_end data 3) \<and> bullish (from_end data 2)
                              \<and> bullish (from_end data 1))"
proof -
  have "bullish_at data (- 3) = Inr (bullish (from_end data 3))"
       "bullish_at data (- 2) = Inr (bullish (from_end data 2))"
       "bullish_at data (- 1) = Inr (bullish (from_end data 1))"
    using assms bullish_at_from_end [of 3 data] bullish_at_from_end [of 2 data]
      bullish_at_from_end [of 1 data] by simp_all
  then show ?thesis
    by (simp add: first_bullish3_def upt_0_3)
qed

lemma closes3_unfold:
  "all_err (map (\<lambda>i. closes_higher_at data (- 3 + int i) (- 4 + int i)) [0..<3])
     = all_err [closes_higher_at data (- 3) (- 4), closes_higher_at data (- 2) (- 3),
                closes_higher_at data (- 1) (- 2)]"
  by (simp add: upt_0_3)

lemma soldiers_unfold:
  "three_white_soldiers data =
     (if length data \<ge> 3 then
        bind_err (first_bullish3 data) (\<lambda>a1.
          if a1 then
            bind_err (all_err [closes_higher_at data (- 3) (- 4),
                               closes_higher_at data (- 2) (- 3),
                               closes_higher_at data (- 1) (- 2)]) (\<lambda>a2.
              Inr (if a2 then [THREE_WHITE_SOLDIERS] else []))
          else Inr [])
      else Inr [])"
  by (simp only: three_white_soldiers_def first_bullish3_def closes3_unfold)

lemma soldiers_long:
  assumes "4 \<le> length data"
  shows "three_white_soldiers data = Inr (filter (pattern_cond data) [THREE_WHITE_SOLDIERS])"
proof -
  have c: "closes_higher_at data (- 3) (- 4)
             = Inr (bar_close (from_end data 3) > bar_close (from_end data 4))"
          "closes_higher_at data (- 2) (- 3)
             = Inr (bar_close (from_end data 2) > bar_close (from_end data 3))"
          "closes_higher_at data (- 1) (- 2)
             = Inr (bar_close (from_end data 1) > bar_close (from_end data 2))"
    using assms closes_higher_at_from_end [of 3 data 4] closes_higher_at_from_end [of 2 data 3]
      closes_higher_at_from_end [of 1 data 2] by simp_all
  from assms have 3: "3 \<le> length data" by simp
  show ?thesis
    unfolding soldiers_unfold first_bullish3_eq [OF 3] c
    using 3 by (simp add: bind_err_def)
qed

lemma soldiers_short:
  "length data < 3 \<Longrightarrow>
   three_white_soldiers data = Inr (filter (pattern_cond data) [THREE_WHITE_SOLDIERS])"
  by (simp add: three_white_soldiers_def)

lemma soldiers_three:
  assumes "length data = 3"
  shows "three_white_soldiers data =
     (if first_bullish3 data = Inr True then Inl IndexError
      else Inr (filter (pattern_cond data) [THREE_WHITE_SOLDIERS]))"
proof -
  have c: "closes_higher_at data (- 3) (- 4) = Inl IndexError"
    using assms closes_higher_at_short [of 3 data 4] by simp
  from assms have 3: "3 \<le> length data" by simp
  show ?thesis
    unfolding soldiers_unfold first_bullish3_eq [OF 3] c
    using 3 by (simp add: bind_err_def)
qed

lemma soldiers_cases:
  "three_white_soldiers data = Inl IndexError \<and> length data = 3 \<and> first_bullish3 data = Inr True
   \<or> three_white_soldiers data = Inr (filter (pattern_cond data) [THREE_WHITE_SOLDIERS])"
proof -
  consider "length data < 3" | "length data = 3" | "4 \<le> length data" by linarith
  then show ?thesis
    by cases (simp_all add: soldiers_short soldiers_three soldiers_long)
qed

lemma gcp_short: "length data < 2 \<Longrightarrow> get_candle_patterns data = Inl IndexError"
proof -
  assume "length data < 2"
  then consider "data = []" | "length data = 1" by (cases data) auto
  then show ?thesis
  proof cases
    case 1
    then show ?thesis by (simp add: get_candle_patterns_def bind_err_def iloc_def)
  next
    case 2
    then show ?thesis
      by (simp add: get_candle_patterns_def bind_err_def iloc_def Let_def)
  qed
qed

lemma bind_err_Inr: "bind_err (Inr x) f = f x"
  by (simp add: bind_err_def)

lemma gcp_eq:
  assumes "2 \<le> length data"
  shows "get_candle_patterns data =
     bind_err (three_white_soldiers data) (\<lambda>tws.
       Inr (case filter (pattern_cond data)
                    [DOJI, BULLISH_HAMMER, INVERTED_HAMMER, SHOOTING_STAR, BULLISH_ENGULFING,
                     BEARISH_ENGULFING, MORNING_STAR, EVENING_STAR] @ tws
            of [] \<Rightarrow> NONE | p # _ \<Rightarrow> p))"
proof -
  have 1: "iloc data (- 1) = Inr (from_end data 1)" using assms by (simp add: iloc_m1)
  have 2: "iloc data (- 2) = Inr (from_end data 2)" using assms by (simp add: iloc_m2)
  have h: "single_patterns (from_end data 1) @ engulfing_patterns (from_end data 1) (from_end data 2)
          @ filter (pattern_cond data) [MORNING_STAR] @ filter (pattern_cond data) [EVENING_STAR]
        = filter (pattern_cond data)
                    [DOJI, BULLISH_HAMMER, INVERTED_HAMMER, SHOOTING_STAR, BULLISH_ENGULFING,
                     BEARISH_ENGULFING, MORNING_STAR, EVENING_STAR]"
    unfolding single_patterns_eq engulfing_patterns_eq filter_append [symmetric] by simp
  have L: "\<And>tws. single_patterns (from_end data 1)
          @ engulfing_patterns (from_end data 1) (from_end data 2)
          @ filter (pattern_cond data) [MORNING_STAR] @ filter (pattern_cond data) [EVENING_STAR]
          @ tws
        = filter (pattern_cond data)
                    [DOJI, BULLISH_HAMMER, INVERTED_HAMMER, SHOOTING_STAR, BULLISH_ENGULFING,
                     BEARISH_ENGULFING, MORNING_STAR, EVENING_STAR] @ tws"
    unfolding h [symmetric] by (simp only: append_assoc)
  show ?thesis
    by (simp only: get_candle_patterns_def 1 2 bind_err_Inr morning_star_eq evening_star_eq
        Let_def L)
qed

lemma gcp_result:
  assumes "get_candle_patterns data = Inr r"
  shows "r = (case filter (pattern_cond data) priority of [] \<Rightarrow> NONE | p # _ \<Rightarrow> p)"
proof -
  have len: "2 \<le> length data"
    using assms gcp_short [of data] by (cases "length data < 2") auto
  from soldiers_cases [of data] assms gcp_eq [OF len]
  have tws: "three_white_soldiers data = Inr (filter (pattern_cond data) [THREE_WHITE_SOLDIERS])"
    by (auto simp: bind_err_def)
  have "filter (pattern_cond data)
                    [DOJI, BULLISH_HAMMER, INVERTED_HAMMER, SHOOTING_STAR, BULLISH_ENGULFING,
                     BEARISH_ENGULFING, MORNING_STAR, EVENING_STAR]
          @ filter (pattern_cond data) [THREE_WHITE_SOLDIERS]
        = filter (pattern_cond data) priority"
    unfolding filter_append [symmetric] priority_def by simp
  with assms show ?thesis
    unfolding gcp_eq [OF len] tws by (simp add: bind_err_def del: pattern_cond.simps filter.simps)
qed

lemma gcp_total:
  assumes "2 \<le> length data" "length data = 3 \<longrightarrow> first_bullish3 data \<noteq> Inr True"
  shows "\<exists>r. get_candle_patterns data = Inr r"
  using soldiers_cases [of data] assms(2)
  by (auto simp: gcp_eq [OF assms(1)] bind_err_def)

lemma doji_excludes_hammer:
  "\<not> (pattern_cond data DOJI \<and> pattern_cond data BULLISH_HAMMER)"
proof -
  have "0 \<le> body (from_end data 1)" by (simp add: body_def)
  then show ?thesis by (auto simp: Let_def)
qed

lemma three_bullish_bars_raise:
  "get_candle_patterns
      [\<lparr>bar_open = 1, bar_high = 2, bar_low = 1, bar_close = 2\<rparr>,
       \<lparr>bar_open = 2, bar_high = 3, bar_low = 2, bar_close = 3\<rparr>,
       \<lparr>bar_open = 3, bar_high = 4, bar_low = 3, bar_close = 4\<rparr>]
     = Inl IndexError"
  by code_simp

lemma gcp_two_bars:
  assumes "length data = 2"
  shows "get_candle_patterns data =
     Inr (case single_patterns (from_end data 1)
               @ engulfing_patterns (from_end data 1) (from_end data 2)
          of [] \<Rightarrow> NONE | p # _ \<Rightarrow> p)"
proof -
  from assms have 2: "2 \<le> length data" and 3: "length data < 3" by simp_all
  have f: "filter (pattern_cond data)
             [DOJI, BULLISH_HAMMER, INVERTED_HAMMER, SHOOTING_STAR, BULLISH_ENGULFING,
              BEARISH_ENGULFING, MORNING_STAR, EVENING_STAR]
           = single_patterns (from_end data 1)
               @ engulfing_patterns (from_end data 1) (from_end data 2)"
    unfolding single_patterns_eq engulfing_patterns_eq filter_append [symmetric]
    using 3 by simp
  have s: "three_white_soldiers data = Inr []"
    using 3 by (simp add: three_white_soldiers_def)
  show ?thesis
    unfolding gcp_eq [OF 2] s bind_err_Inr f by simp
qed

text \<open>
  Claim C6, as stated, fails. On a series of one bar \<open>data['open'].iloc[-2]\<close> raises
  IndexError before any pattern is looked at; and on a series of two bars the engulfing
  check is not skipped: it is evaluated and reported.
\<close>

theorem get_candle_patterns_counterexample:
  "get_candle_patterns [\<lparr>bar_open = 1, bar_high = 2, bar_low = 0, bar_close = 1\<rparr>]
     = Inl IndexError
   \<and> get_candle_patterns
        [\<lparr>bar_open = 1.5, bar_high = 1.6, bar_low = 1.3, bar_close = 1.4\<rparr>,
         \<lparr>bar_open = 1.3, bar_high = 1.7, bar_low = 1.2, bar_close = 1.6\<rparr>]
     = Inr BULLISH_ENGULFING"
  by code_simp

text \<open>
  Claim C6, amended. For every series of at least two bars, a three-bar series of three
  bullish bars apart, \<open>get_candle_patterns\<close> returns a pattern or NONE without error.
  With exactly two bars the three-candle checks (morning star, evening star, three white
  soldiers) are skipped, and the result is the first of the single-candle patterns of the
  last bar and the engulfing patterns of the last two bars, NONE if there is none.
\<close>

theorem get_candle_patterns_degradation:
  "(2 \<le> length data \<and> (length data = 3 \<longrightarrow> first_bullish3 data \<noteq> Inr True)
      \<longrightarrow> (\<exists>r. get_candle_patterns data = Inr r))
   \<and> (length data = 2 \<longrightarrow>
        get_candle_patterns data =
          Inr (case single_patterns (from_end data 1)
                    @ engulfing_patterns (from_end data 1) (from_end data 2)
               of [] \<Rightarrow> NONE | p # _ \<Rightarrow> p))"
  using gcp_total [of data] gcp_two_bars [of data] by blast

theorem get_candle_patterns_degradation_witness:
  "2 \<le> length [\<lparr>bar_open = 1.5, bar_high = 1.6, bar_low = 1.3, bar_close = 1.4\<rparr>,
                \<lparr>bar_open = 1.3, bar_high = 1.7, bar_low = 1.2, bar_close = 1.6\<rparr>]
   \<and> length [\<lparr>bar_open = 1.5, bar_high = 1.6, bar_low = 1.3, bar_close = 1.4\<rparr>,
             \<lparr>bar_open = 1.3, bar_high = 1.7, bar_low = 1.2, bar_close = 1.6\<rparr>] = 2
   \<and> get_candle_patterns
            [\<lparr>bar_open = 1.5, bar_high = 1.6, bar_low = 1.3, bar_close = 1.4\<rparr>,
             \<lparr>bar_open = 1.3, bar_high = 1.7, bar_low = 1.2, bar_close = 1.6\<rparr>]
       = Inr BULLISH_ENGULFING"
proof -
  let ?d = "[\<lparr>bar_open = 1.5, bar_high = 1.6, bar_low = 1.3, bar_close = 1.4\<rparr>,
             \<lparr>bar_open = 1.3, bar_high = 1.7, bar_low = 1.2, bar_close = 1.6\<rparr>]"
  have l: "length ?d = 2" by simp
  have e: "(case single_patterns (from_end ?d 1)
                    @ engulfing_patterns (from_end ?d 1) (from_end ?d 2)
               of [] \<Rightarrow> NONE | p # _ \<Rightarrow> p) = BULLISH_ENGULFING"
    by code_simp
  from get_candle_patterns_degradation [of ?d] l
  have "get_candle_patterns ?d =
          Inr (case single_patterns (from_end ?d 1)
                    @ engulfing_patterns (from_end ?d 1) (from_end ?d 2)
               of [] \<Rightarrow> NONE | p # _ \<Rightarrow> p)"
    by blast
  with e l show ?thesis by simp
qed

text \<open>
  Claim C9 (tie-break by priority). Whenever \<open>get_candle_patterns\<close> returns, and it
  does on every series of at least four bars, the result is the earliest pattern of the
  priority order DOJI, BULLISH\_HAMMER, INVERTED\_HAMMER, SHOOTING\_STAR,
  BULLISH\_ENGULFING, BEARISH\_ENGULFING, MORNING\_STAR, EVENING\_STAR,
  THREE\_WHITE\_SOLDIERS whose condition holds, NONE if none holds. In particular a
  series whose last bar satisfies the DOJI condition is reported as DOJI whatever else
  holds. (The DOJI and BULLISH\_HAMMER conditions exclude each other, see
  \<open>doji_excludes_hammer\<close>.)
\<close>

theorem get_candle_patterns_priority:
  "(4 \<le> length data \<longrightarrow> (\<exists>r. get_candle_patterns data = Inr r))
   \<and> (get_candle_patterns data = Inr r \<longrightarrow>
        r = (case filter (pattern_cond data) priority of [] \<Rightarrow> NONE | p # _ \<Rightarrow> p)
        \<and> (pattern_cond data DOJI \<longrightarrow> r = DOJI))"
proof (intro conjI impI)
  assume "4 \<le> length data"
  then show "\<exists>r. get_candle_patterns data = Inr r"
    using gcp_total [of data] by simp
next
  assume "get_candle_patterns data = Inr r"
  then show "r = (case filter (pattern_cond data) priority of [] \<Rightarrow> NONE | p # _ \<Rightarrow> p)"
    by (rule gcp_result)
next
  assume a: "get_candle_patterns data = Inr r" and d: "pattern_cond data DOJI"
  from gcp_result [OF a] d show "r = DOJI"
    by (simp add: priority_def del: pattern_cond.simps)
qed

theorem get_candle_patterns_priority_witness:
  "4 \<le> length
      [\<lparr>bar_open = 1, bar_high = 1, bar_low = 1, bar_close = 1\<rparr>,
       \<lparr>bar_open = 1, bar_high = 1, bar_low = 1, bar_close = 1\<rparr>,
       \<lparr>bar_open = 1.5, bar_high = 1.6, bar_low = 1.3, bar_close = 1.4\<rparr>,
       \<lparr>bar_open = 1.3, bar_high = 3, bar_low = 0, bar_close = 1.6\<rparr>]
   \<and> pattern_cond
      [\<lparr>bar_open = 1, bar_high = 1, bar_low = 1, bar_close = 1\<rparr>,
       \<lparr>bar_open = 1, bar_high = 1, bar_low = 1, bar_close = 1\<rparr>,
       \<lparr>bar_open = 1.5, bar_high = 1.6, bar_low = 1.3, bar_close = 1.4\<rparr>,
       \<lparr>bar_open = 1.3, bar_high = 3, bar_low = 0, bar_close = 1.6\<rparr>] DOJI
   \<and> pattern_cond
      [\<lparr>bar_open = 1, bar_high = 1, bar_low = 1, bar_close = 1\<rparr>,
       \<lparr>bar_open = 1, bar_high = 1, bar_low = 1, bar_close = 1\<rparr>,
       \<lparr>bar_open = 1.5, bar_high = 1.6, bar_low = 1.3, bar_close = 1.4\<rparr>,
       \<lparr>bar_open = 1.3, bar_high = 3, bar_low = 0, bar_close = 1.6\<rparr>] BULLISH_ENGULFING
   \<and> get_candle_patterns
      [\<lparr>bar_open = 1, bar_high = 1, bar_low = 1, bar_close = 1\<rparr>,
       \<lparr>bar_open = 1, bar_high = 1, bar_low = 1, bar_close = 1\<rparr>,
       \<lparr>bar_open = 1.5, bar_high = 1.6, bar_low = 1.3, bar_close = 1.4\<rparr>,
       \<lparr>bar_open = 1.3, bar_high = 3, bar_low = 0, bar_close = 1.6\<rparr>] = Inr DOJI"
proof -
  let ?d = "[\<lparr>bar_open = 1, bar_high = 1, bar_low = 1, bar_close = 1\<rparr>,
       \<lparr>bar_open = 1, bar_high = 1, bar_low = 1, bar_close = 1\<rparr>,
       \<lparr>bar_open = 1.5, bar_high = 1.6, bar_low = 1.3, bar_close = 1.4\<rparr>,
       \<lparr>bar_open = 1.3, bar_high = 3, bar_low = 0, bar_close = 1.6\<rparr>]"
  have l: "4 \<le> length ?d" by simp
  have c1: "pattern_cond ?d DOJI" by code_simp
  have c2: "pattern_cond ?d BULLISH_ENGULFING" by code_simp
  from get_candle_patterns_priority [of ?d] l
  obtain r where r: "get_candle_patterns ?d = Inr r" by blast
  with get_candle_patterns_priority [of ?d r] c1 have "r = DOJI" by blast
  with r l c1 c2 show ?thesis by blast
qed

section \<open>Relative strength index: proofs\<close>

lemma length_diffs: "length (diffs xs) = length xs - 1"
  by (induction xs rule: diffs.induct) simp_all

lemma length_diff [simp]: "length (diff xs) = length xs"
  by (cases xs) (simp_all add: length_diffs)

lemma length_rolling_mean [simp]: "length (rolling_mean xs w) = length xs"
  by (simp add: rolling_mean_def)

lemma calculate_rsi_eq:
  assumes "close \<noteq> []"
  shows "calculate_rsi close period =
     fsub (Fin 100) (fdiv (Fin 100)
        (fadd (Fin 1) (fdiv (gain_mean close period) (loss_mean close period))))"
proof -
  let ?g = "rolling_mean (map where_gt0 (diff close)) period"
  let ?l = "rolling_mean (map (\<lambda>d. - where_lt0 d) (diff close)) period"
  have len: "length ?g = length ?l" by simp
  have ne: "?g \<noteq> []" using assms by (simp flip: length_greater_0_conv)
  then have ne2: "map2 fdiv ?g ?l \<noteq> []" using len by (cases ?g; cases ?l) auto
  have ne3: "?l \<noteq> []" using assms by (simp flip: length_greater_0_conv)
  show ?thesis
    using ne ne3 by (simp add: calculate_rsi_def Let_def last_map last_zip [OF ne ne3 len]
        gain_mean_def loss_mean_def)
qed

lemma last_rolling_mean:
  "xs \<noteq> [] \<Longrightarrow> last (rolling_mean xs w) =
     (if length xs < w then NaN
      else Fin (sum_list (take w (drop (length xs - w) xs)) / real w))"
  by (cases xs rule: rev_cases) (auto simp: rolling_mean_def)

lemma sum_window_nonneg:
  "(\<And>x. x \<in> set xs \<Longrightarrow> 0 \<le> (x::real)) \<Longrightarrow> 0 \<le> sum_list (take w (drop k xs))"
  by (rule sum_list_nonneg) (auto dest!: in_set_takeD in_set_dropD)

lemma where_gt0_nonneg: "0 \<le> where_gt0 d"
  by (simp add: where_gt0_def split: option.splits)

lemma gain_mean_cases:
  assumes "close \<noteq> []"
  shows "(length close < period \<and> gain_mean close period = NaN \<and> loss_mean close period = NaN)
       \<or> (period \<le> length close \<and> (\<exists>g\<ge>0. gain_mean close period = Fin g)
           \<and> (\<exists>l. loss_mean close period = Fin l))"
proof -
  have ne: "map where_gt0 (diff close) \<noteq> []" "map (\<lambda>d. - where_lt0 d) (diff close) \<noteq> []"
    using assms by (simp_all flip: length_greater_0_conv)
  have "0 \<le> sum_list (take period (drop (length close - period) (map where_gt0 (diff close))))"
    by (rule sum_window_nonneg) (auto simp: where_gt0_nonneg)
  then have "0 \<le> sum_list (take period (drop (length close - period) (map where_gt0 (diff close))))
               / real period"
    by simp
  then show ?thesis
    by (simp add: gain_mean_def loss_mean_def last_rolling_mean [OF ne(1)]
        last_rolling_mean [OF ne(2)] not_less)
qed

text \<open>
  Claim C5, as stated, fails. On fifteen equal closes with period 14 the rolling mean of
  the losses is 0 and so is that of the gains: the quotient is 0/0 and \<open>calculate_rsi\<close>
  returns NaN, which is neither 100 nor a value in [0, 100]. On three bars with period 14
  the rolling means are NaN and the result is NaN, not 50.
\<close>

theorem calculate_rsi_counterexample:
  "loss_mean [1, 1, 1, 1, 1, 1, 1, 1, 1, 1, 1, 1, 1, 1, 1] 14 = Fin 0
   \<and> calculate_rsi [1, 1, 1, 1, 1, 1, 1, 1, 1, 1, 1, 1, 1, 1, 1] 14 = NaN
   \<and> length [1, 2, 3 :: real] < 14 + 1
   \<and> calculate_rsi [1, 2, 3] 14 = NaN"
  by code_simp

text \<open>
  Claim C5, amended. \<open>calculate_rsi\<close> returns 50 on the empty series. On a non-empty
  series, when the rolling mean of the losses at the last bar is a positive number the
  result is a number in [0, 100]; when it is 0 and the rolling mean of the gains is
  positive, the result is 100.
\<close>

theorem calculate_rsi_contract:
  "calculate_rsi [] period = Fin 50
   \<and> (loss_mean close period = Fin l \<and> 0 < l \<and> close \<noteq> [] \<longrightarrow>
        (\<exists>r. calculate_rsi close period = Fin r \<and> 0 \<le> r \<and> r \<le> 100))
   \<and> (loss_mean close period = Fin 0 \<and> gain_mean close period = Fin g \<and> 0 < g
        \<and> close \<noteq> [] \<longrightarrow>
        calculate_rsi close period = Fin 100)"
proof (intro conjI impI)
  show "calculate_rsi [] period = Fin 50"
    by (simp add: calculate_rsi_def rolling_mean_def)
next
  assume a: "loss_mean close period = Fin l \<and> 0 < l \<and> close \<noteq> []"
  then have ne: "close \<noteq> []" and l: "loss_mean close period = Fin l" "0 < l" by simp_all
  from gain_mean_cases [OF ne, of period] l obtain g where g: "gain_mean close period = Fin g" "0 \<le> g"
    by auto
  define x where "x = 1 + g / l"
  have "0 \<le> g / l" using g l by simp
  then have x: "1 \<le> x" by (simp add: x_def)
  then have x0: "0 < x" by simp
  have r1: "100 / x \<le> 100" using x x0 by (simp add: pos_divide_le_eq)
  have r2: "0 \<le> 100 / x" using x0 by simp
  have "fdiv (gain_mean close period) (loss_mean close period) = Fin (g / l)"
    using g l by simp
  then have "fadd (Fin 1) (fdiv (gain_mean close period) (loss_mean close period)) = Fin x"
    by (simp add: x_def)
  then have "calculate_rsi close period = Fin (100 - 100 / x)"
    using x0 by (simp add: calculate_rsi_eq [OF ne] fsub_def)
  with r1 r2 show "\<exists>r. calculate_rsi close period = Fin r \<and> 0 \<le> r \<and> r \<le> 100"
    by simp
next
  assume a: "loss_mean close period = Fin 0 \<and> gain_mean close period = Fin g \<and> 0 < g
        \<and> close \<noteq> []"
  then show "calculate_rsi close period = Fin 100"
    by (simp add: calculate_rsi_eq fsub_def)
qed

theorem calculate_rsi_contract_witness:
  "loss_mean [3, 2, 4, 3] 2 = Fin (1 / 2) \<and> 0 < (1 / 2 :: real) \<and> [3, 2, 4, 3 :: real] \<noteq> []
   \<and> (\<exists>r. calculate_rsi [3, 2, 4, 3] 2 = Fin r \<and> 0 \<le> r \<and> r \<le> 100)
   \<and> calculate_rsi [3, 2, 4, 3] 2 = Fin (200 / 3)
   \<and> loss_mean [1, 2, 3] 2 = Fin 0 \<and> gain_mean [1, 2, 3] 2 = Fin 1 \<and> 0 < (1 :: real)
   \<and> [1, 2, 3 :: real] \<noteq> []
   \<and> calculate_rsi [1, 2, 3] 2 = Fin 100"
proof -
  have a: "loss_mean [3, 2, 4, 3] 2 = Fin (1 / 2)" by code_simp
  have b: "calculate_rsi [3, 2, 4, 3] 2 = Fin (200 / 3)" by code_simp
  have c: "loss_mean [1, 2, 3] 2 = Fin 0" by code_simp
  have d: "gain_mean [1, 2, 3] 2 = Fin 1" by code_simp
  from calculate_rsi_contract [of 2 "[3, 2, 4, 3]" "1 / 2" 0] a
  have e: "\<exists>r. calculate_rsi [3, 2, 4, 3] 2 = Fin r \<and> 0 \<le> r \<and> r \<le> 100" by simp
  from calculate_rsi_contract [of 2 "[1, 2, 3]" 0 1] c d
  have f: "calculate_rsi [1, 2, 3] 2 = Fin 100" by simp
  from a b c d e f show ?thesis by simp
qed

end
